theory Spec2Isabelle
  imports Main "HOL-Library.Multiset"
begin

section \<open>The static-site generator: host values and helpers\<close>

text \<open>
  The generator is the newest \<open>build.js\<close> variant (the one with waveform images, videos
  and iTunes tags). A \<open>string\<close> stands for a JavaScript string, one \<open>char\<close> per code
  unit. The front matter is read at the keys whose values the generator uses: \<open>title\<close>,
  \<open>date\<close>, \<open>description\<close>, \<open>tags\<close>, \<open>music-source\<close>, \<open>cover-image\<close>, and
  \<open>videoSource\<close> and \<open>waveformImage\<close>, which the spread of the attributes copies into the
  entry. Their values are strings, \<open>null\<close> or missing.
\<close>

type_synonym path = string

text \<open>A \<open>Date\<close>: a time value in milliseconds, or the Invalid Date (time value NaN).\<close>

datatype js_date = DateMs int | InvalidDate

text \<open>The values a field of an entry can hold: \<open>undefined\<close>, \<open>null\<close> or a string.\<close>

datatype jsval = JUndefined | JNull | JStr string

text \<open>
  What can be thrown. \<open>UnhandledRejection\<close> is the rejection of a promise that nobody
  awaits or catches, which ends the process.
\<close>

datatype error =
    ExecFailed
  | ENOENT path
  | MkdirFailed path
  | RangeError
  | UnhandledRejection error

text \<open>Truthiness of an optional string (\<open>undefined\<close> and \<open>''\<close> are falsy).\<close>

definition truthy :: "string option \<Rightarrow> bool" where
  "truthy v = (case v of None \<Rightarrow> False | Some s \<Rightarrow> s \<noteq> [])"

definition truthy_val :: "jsval \<Rightarrow> bool" where
  "truthy_val v = (case v of JStr s \<Rightarrow> s \<noteq> [] | _ \<Rightarrow> False)"

text \<open>\<open>x || null\<close> on an optional string.\<close>

definition or_null :: "string option \<Rightarrow> string option" where
  "or_null v = (if truthy v then v else None)"

text \<open>String conversion inside a template literal.\<close>

definition str_of_opt :: "string option \<Rightarrow> string" where
  "str_of_opt v = (case v of None \<Rightarrow> ''undefined'' | Some s \<Rightarrow> s)"

definition str_of_val :: "jsval \<Rightarrow> string" where
  "str_of_val v = (case v of JUndefined \<Rightarrow> ''undefined'' | JNull \<Rightarrow> ''null'' | JStr s \<Rightarrow> s)"

definition endsWith :: "string \<Rightarrow> string \<Rightarrow> bool" where
  "endsWith s suf = (length suf \<le> length s \<and> drop (length s - length suf) s = suf)"

text \<open>
  \<open>path.basename(file, ext)\<close> on a directory entry name (\<open>readdir\<close> returns names with
  no separator): the extension is cut when the name ends with it.
\<close>

definition basename :: "string \<Rightarrow> string \<Rightarrow> string" where
  "basename file ext =
     (if ext \<noteq> [] \<and> endsWith file ext then take (length file - length ext) file else file)"

text \<open>ASCII lower case, for the \<open>i\<close> flag of the audio-extension pattern.\<close>

definition lower :: "char \<Rightarrow> char" where
  "lower c =
     (case map_of (zip ''ABCDEFGHIJKLMNOPQRSTUVWXYZ'' ''abcdefghijklmnopqrstuvwxyz'') c of
        None \<Rightarrow> c
      | Some d \<Rightarrow> d)"

text \<open>\<open>s.replace(/\.(mp3|wav|ogg|m4a)$/i, r)\<close>.\<close>

definition replace_audio_ext :: "string \<Rightarrow> string \<Rightarrow> string" where
  "replace_audio_ext s r =
     (if 4 \<le> length s \<and>
         map lower (drop (length s - 4) s) \<in> set [''.mp3'', ''.wav'', ''.ogg'', ''.m4a'']
      then take (length s - 4) s @ r else s)"

text \<open>\<open>s.replace(/\.(jpg|png)$/, r)\<close>.\<close>

definition replace_image_ext :: "string \<Rightarrow> string \<Rightarrow> string" where
  "replace_image_ext s r =
     (if 4 \<le> length s \<and> drop (length s - 4) s \<in> set [''.jpg'', ''.png'']
      then take (length s - 4) s @ r else s)"

text \<open>
  \<open>s.replace(/<[^>]*>/g, '')\<close>: a match starts at a \<open><\<close> that has a \<open>>\<close> somewhere
  after it and runs up to the first such \<open>>\<close>; a \<open><\<close> with no \<open>>\<close> after it stays.
\<close>

function strip_tags :: "string \<Rightarrow> string" where
  "strip_tags [] = []"
| "strip_tags (c # cs) =
     (if c = CHR ''<'' \<and> CHR ''>'' \<in> set cs
      then strip_tags (tl (dropWhile (\<lambda>d. d \<noteq> CHR ''>'') cs))
      else c # strip_tags cs)"
  by pat_completeness auto
termination
proof (relation "measure length")
  show "wf (measure length)" by simp
next
  fix c :: char and cs :: string
  have "length (tl (dropWhile (\<lambda>d. d \<noteq> CHR ''>'') cs)) \<le> length cs"
    using length_dropWhile_le [of "\<lambda>d. d \<noteq> CHR ''>''" cs] by simp
  then show "(tl (dropWhile (\<lambda>d. d \<noteq> CHR ''>'') cs), c # cs) \<in> measure length"
    by simp
next
  fix c :: char and cs :: string
  show "(cs, c # cs) \<in> measure length" by simp
qed

section \<open>Entries\<close>

definition OUTPUT_DIR :: path where
  "OUTPUT_DIR = ''./docs''"

definition AUDIO_COVER_IMAGE :: path where
  "AUDIO_COVER_IMAGE = ''./audio-cover.jpg''"

definition site_title :: string where
  "site_title = ''Aubrey McCarthy - Words''"

definition site_url :: string where
  "site_url = ''https://words.aubrey.page''"

definition site_author :: string where
  "site_author = ''Aubrey McCarthy''"

text \<open>
  A source post as \<open>frontMatter\<close> and \<open>marked\<close> hand it over: the attributes and the
  rendered body. \<open>a_date\<close> is \<open>new Date(attributes.date)\<close>. For the keys that are only
  tested for truth, \<open>None\<close> is a missing key or \<open>null\<close>; \<open>a_title\<close>, \<open>a_videoSource\<close>
  and \<open>a_waveformImage\<close> are the values of the keys \<open>title\<close>, \<open>videoSource\<close> and
  \<open>waveformImage\<close> of the front matter (\<open>JUndefined\<close> when the key is missing).
\<close>

record source_post =
  a_title :: jsval
  a_date :: js_date
  a_description :: "string option"
  a_tags :: "string list option"
  a_music_source :: "string option"
  a_cover_image :: "string option"
  a_videoSource :: jsval
  a_waveformImage :: jsval
  rendered :: string

record entry =
  title :: jsval
  description :: "string option"
  content :: string
  date :: js_date
  tags :: "string list"
  slug :: string
  filename :: string
  musicSource :: "string option"
  coverImage :: "string option"
  videoSource :: jsval
  waveformImage :: jsval

text \<open>
  The object built for each file: the spread \<open>...attributes\<close> first (it brings \<open>title\<close>,
  \<open>description\<close>, \<open>videoSource\<close> and \<open>waveformImage\<close>), then the keys that override it.
\<close>

definition parseEntry :: "string \<times> source_post \<Rightarrow> entry" where
  "parseEntry fp =
     (case fp of (file, p) \<Rightarrow>
       \<lparr> title = a_title p,
         description = a_description p,
         content = rendered p,
         date = a_date p,
         tags = (case a_tags p of None \<Rightarrow> [] | Some ts \<Rightarrow> ts),
         slug = basename file ''.md'',
         filename = file,
         musicSource = or_null (a_music_source p),
         coverImage = or_null (a_cover_image p),
         videoSource = a_videoSource p,
         waveformImage = a_waveformImage p \<rparr>)"

section \<open>Sorting\<close>

text \<open>
  The comparator \<open>(a, b) => b.date - a.date\<close>. A difference with an Invalid Date is NaN,
  which \<open>sort\<close> takes as \<open>+0\<close>.
\<close>

definition compareDates :: "entry \<Rightarrow> entry \<Rightarrow> int" where
  "compareDates a b =
     (case (date b, date a) of
        (DateMs tb, DateMs ta) \<Rightarrow> tb - ta
      | _ \<Rightarrow> 0)"

text \<open>
  \<open>Array.prototype.sort\<close> is stable; it is modelled as the stable insertion sort, which
  every conforming \<open>sort\<close> agrees with when the comparator is consistent.
\<close>

fun insert_by :: "('a \<Rightarrow> 'a \<Rightarrow> int) \<Rightarrow> 'a \<Rightarrow> 'a list \<Rightarrow> 'a list" where
  "insert_by cmp x [] = [x]"
| "insert_by cmp x (y # ys) =
     (if cmp x y \<le> 0 then x # y # ys else y # insert_by cmp x ys)"

fun js_sort :: "('a \<Rightarrow> 'a \<Rightarrow> int) \<Rightarrow> 'a list \<Rightarrow> 'a list" where
  "js_sort cmp [] = []"
| "js_sort cmp (x # xs) = insert_by cmp x (js_sort cmp xs)"

section \<open>The manifest\<close>

text \<open>
  The object literal built for each entry. \<open>m_date\<close> is the time value whose ISO-8601
  rendering \<open>toISOString\<close> returns; on an Invalid Date \<open>toISOString\<close> throws.
\<close>

record postsMetadata =
  m_title :: jsval
  m_date :: int
  m_tags :: "string list"
  m_slug :: string
  m_description :: string
  m_musicSource :: "string option"
  m_videoSource :: jsval
  m_waveformImage :: jsval

definition toISOString :: "js_date \<Rightarrow> error + int" where
  "toISOString d = (case d of DateMs t \<Rightarrow> Inr t | InvalidDate \<Rightarrow> Inl RangeError)"

definition metadata_of :: "entry \<Rightarrow> error + postsMetadata" where
  "metadata_of e =
     (case toISOString (date e) of
        Inl err \<Rightarrow> Inl err
      | Inr isoDate \<Rightarrow>
          Inr \<lparr> m_title = title e,
                m_date = isoDate,
                m_tags = tags e,
                m_slug = slug e,
                m_description = (if truthy (description e) then str_of_opt (description e) else []),
                m_musicSource = musicSource e,
                m_videoSource = videoSource e,
                m_waveformImage = waveformImage e \<rparr>)"

text \<open>\<open>entries.map(f)\<close> where \<open>f\<close> may throw: the first throw ends the map.\<close>

fun map_throw :: "('a \<Rightarrow> error + 'b) \<Rightarrow> 'a list \<Rightarrow> error + 'b list" where
  "map_throw f [] = Inr []"
| "map_throw f (x # xs) =
     (case f x of
        Inl err \<Rightarrow> Inl err
      | Inr y \<Rightarrow> (case map_throw f xs of Inl err \<Rightarrow> Inl err | Inr ys \<Rightarrow> Inr (y # ys)))"

text \<open>
  \<open>JSON.stringify\<close> on one record: a property whose value is \<open>undefined\<close> is left out,
  \<open>null\<close> is written as \<open>null\<close>.
\<close>

datatype json = JsonNull | JsonString string | JsonIsoDate int | JsonStrings "string list"

definition json_prop :: "string \<Rightarrow> jsval \<Rightarrow> (string \<times> json) list" where
  "json_prop k v =
     (case v of JUndefined \<Rightarrow> [] | JNull \<Rightarrow> [(k, JsonNull)] | JStr s \<Rightarrow> [(k, JsonString s)])"

definition stringify_record :: "postsMetadata \<Rightarrow> (string \<times> json) list" where
  "stringify_record m =
     json_prop ''title'' (m_title m) @
     [(''date'', JsonIsoDate (m_date m)),
      (''tags'', JsonStrings (m_tags m)),
      (''slug'', JsonString (m_slug m)),
      (''description'', JsonString (m_description m)),
      (''musicSource'', (case m_musicSource m of None \<Rightarrow> JsonNull | Some s \<Rightarrow> JsonString s))] @
     json_prop ''videoSource'' (m_videoSource m) @
     json_prop ''waveformImage'' (m_waveformImage m)"

section \<open>Rendering\<close>

text \<open>
  The rendered fragments are kept as structured values: a \<open>meta\<close> is one \<open><meta>\<close>
  element (by \<open>property\<close> or by \<open>name\<close>, with its \<open>content\<close>), a record holds what the
  template literal splices in, in the order of the source; the fixed markup between the
  splices is left out. A date in a fragment stands for its formatted text.
\<close>

datatype meta = Property string string | Name string string

datatype audio_player = NoPlayer | AudioPlayer string

definition generateAudioPlayer :: "entry \<Rightarrow> audio_player" where
  "generateAudioPlayer e =
     (if \<not> truthy (musicSource e) then NoPlayer else AudioPlayer (str_of_opt (musicSource e)))"

definition generateOpenGraphTags :: "entry \<Rightarrow> meta list" where
  "generateOpenGraphTags e =
     (let postUrl = site_url @ ''/posts/'' @ slug e;
          descr = (if truthy (description e) then str_of_opt (description e)
                   else strip_tags (take 200 (content e)));
          isMusicPost = (''music'' \<in> set (tags e) \<and> truthy (musicSource e));
          ogTags =
            [Property ''og:title'' (str_of_val (title e)),
             Property ''og:description'' descr,
             Property ''og:url'' postUrl,
             Property ''og:site_name'' site_title,
             Name ''twitter:card'' ''summary_large_image'',
             Name ''twitter:title'' (str_of_val (title e)),
             Name ''twitter:description'' descr]
      in
      if isMusicPost then
        ogTags @
        (if truthy_val (waveformImage e) then
           (let imageUrl = site_url @ str_of_val (waveformImage e) in
            [Property ''og:image'' imageUrl,
             Property ''og:image:width'' ''1200'',
             Property ''og:image:height'' ''1200'',
             Name ''twitter:image'' imageUrl])
         else []) @
        (if truthy_val (videoSource e) then
           (let videoUrl = site_url @ str_of_val (videoSource e);
                audioUrl = site_url @ str_of_opt (musicSource e) in
            [Property ''og:type'' ''video.other'',
             Property ''og:video'' videoUrl,
             Property ''og:video:secure_url'' videoUrl,
             Property ''og:video:type'' ''video/mp4'',
             Property ''og:audio'' audioUrl,
             Property ''og:audio:type'' ''audio/mpeg'',
             Property ''music:musician'' site_author,
             Name ''twitter:player'' videoUrl])
         else [])
      else ogTags @ [Property ''og:type'' ''article''])"

text \<open>The tag badges: nothing for an entry without tags.\<close>

definition tagsHTML :: "entry \<Rightarrow> string list" where
  "tagsHTML e = (if length (tags e) > 0 then tags e else [])"

text \<open>
  The page \<open>writePost\<close> builds for \<open>posts/<slug>.html\<close>; \<open>pp_file\<close> is its file name.
  The write itself is part of the build below.
\<close>

record post_page =
  pp_file :: string
  pp_date :: js_date
  pp_title :: string
  pp_tags :: "string list"
  pp_audio :: audio_player
  pp_content :: string
  pp_og :: "meta list"

definition writePost :: "entry \<Rightarrow> string list \<Rightarrow> post_page" where
  "writePost e tagsH =
     (let audioPlayer = generateAudioPlayer e;
          ogTags = generateOpenGraphTags e
      in \<lparr> pp_file = slug e @ ''.html'',
           pp_date = date e,
           pp_title = str_of_val (title e),
           pp_tags = tagsH,
           pp_audio = audioPlayer,
           pp_content = content e,
           pp_og = ogTags \<rparr>)"

text \<open>One card of the home page.\<close>

record card =
  c_data_tags :: "string list"
  c_date :: js_date
  c_slug :: string
  c_title :: string
  c_tags :: "string list"
  c_audio :: audio_player
  c_content :: string

definition portfolioItem :: "entry \<Rightarrow> card" where
  "portfolioItem e =
     (let audioPlayer = generateAudioPlayer e
      in \<lparr> c_data_tags = tags e,
           c_date = date e,
           c_slug = slug e,
           c_title = str_of_val (title e),
           c_tags = tagsHTML e,
           c_audio = audioPlayer,
           c_content = content e \<rparr>)"

text \<open>
  One \<open><item>\<close> of the feed, and the items \<open>generateRSSFeed\<close> builds for \<open>rss.xml\<close> (the
  write itself is part of the build below). \<open>r_enclosure\<close> is the \<open>url\<close> of the \<open><enclosure>\<close> element,
  \<open>r_itunes_author\<close> the author of the iTunes tags; \<open>None\<close> when the source emits \<open>''\<close>.
\<close>

record rss_item =
  r_title :: string
  r_description :: string
  r_content :: string
  r_link :: string
  r_guid :: string
  r_pubDate :: js_date
  r_enclosure :: "string option"
  r_itunes_author :: "string option"

definition rssItem :: "entry \<Rightarrow> rss_item" where
  "rssItem e =
     (let descr = (if truthy (description e) then str_of_opt (description e)
                   else strip_tags (take 200 (content e)) @ ''...'');
          postUrl = site_url @ ''/posts/'' @ slug e;
          enclosure = (if truthy (musicSource e)
                       then Some (site_url @ str_of_opt (musicSource e)) else None);
          itunesTags = (if truthy (musicSource e) then Some site_author else None)
      in \<lparr> r_title = str_of_val (title e),
           r_description = descr,
           r_content = content e,
           r_link = postUrl,
           r_guid = postUrl,
           r_pubDate = date e,
           r_enclosure = enclosure,
           r_itunes_author = itunesTags \<rparr>)"

definition generateRSSFeed :: "entry list \<Rightarrow> rss_item list" where
  "generateRSSFeed entries = map rssItem (take 20 entries)"

section \<open>The world: the file system and the external media tool\<close>

text \<open>
  The commands handed to \<open>execAsync\<close>, one constructor per command line of the source,
  with the paths (and the canvas size) the template literal splices in.
\<close>

datatype cmd =
    FfmpegVersion
  | Probe path
  | ExtractAudio path path
  | RenderWaveform path nat nat path
  | Composite path path path
  | EncodeVideo path path path

text \<open>What the build writes with \<open>fs.writeFile\<close>.\<close>

datatype file_content =
    ManifestFile "(string \<times> json) list list"
  | PostFile post_page
  | IndexFile "card list"
  | FeedFile "rss_item list"

text \<open>
  The file system keeps the last-modified time of every media file that exists, the
  directories known to exist (\<open>dirs\<close>), and the files the build has written, in order
  (\<open>disk\<close>); \<open>cmds\<close> is the list of commands run so far, in order.
\<close>

record world =
  mtime :: "path \<Rightarrow> int option"
  now :: int
  cmds :: "cmd list"
  dirs :: "path set"
  disk :: "(path \<times> file_content) list"

text \<open>
  What the generator takes from its host: \<open>path.join\<close> and \<open>path.dirname\<close>, whether a
  command succeeds in a given world, what \<open>dimensions.trim().split('x').map(Number)\<close>
  yields for the probed image (\<open>None\<close> is NaN), and whether a directory can be made.
\<close>

record host =
  path_join :: "path \<Rightarrow> path \<Rightarrow> path"
  path_dirname :: "path \<Rightarrow> path"
  exec_ok :: "world \<Rightarrow> cmd \<Rightarrow> bool"
  probe_dims :: "world \<Rightarrow> path \<Rightarrow> nat option list"
  mkdir_ok :: "world \<Rightarrow> path \<Rightarrow> bool"

text \<open>An awaited step: it changes the world and either resolves or rejects.\<close>

type_synonym 'a io = "world \<Rightarrow> (error + 'a) \<times> world"

definition ret :: "'a \<Rightarrow> 'a io" where
  "ret x w = (Inr x, w)"

definition andThen :: "'a io \<Rightarrow> ('a \<Rightarrow> 'b io) \<Rightarrow> 'b io" where
  "andThen m f w = (case m w of (Inl e, w') \<Rightarrow> (Inl e, w') | (Inr x, w') \<Rightarrow> f x w')"

definition tryCatch :: "'a io \<Rightarrow> (error \<Rightarrow> 'a io) \<Rightarrow> 'a io" where
  "tryCatch m handler w = (case m w of (Inl e, w') \<Rightarrow> handler e w' | (Inr x, w') \<Rightarrow> (Inr x, w'))"

text \<open>The file a command writes (every ffmpeg command runs with \<open>-y\<close>).\<close>

fun output_of :: "cmd \<Rightarrow> path option" where
  "output_of FfmpegVersion = None"
| "output_of (Probe _) = None"
| "output_of (ExtractAudio _ out) = Some out"
| "output_of (RenderWaveform _ _ _ out) = Some out"
| "output_of (Composite _ _ out) = Some out"
| "output_of (EncodeVideo _ _ out) = Some out"

definition write_file :: "path \<Rightarrow> world \<Rightarrow> world" where
  "write_file p w = w\<lparr>mtime := (mtime w)(p \<mapsto> now w), now := now w + 1\<rparr>"

text \<open>
  \<open>execAsync(c)\<close>: the command is run (and recorded); when it succeeds its output file
  is written at the current time, when it fails the promise rejects.
\<close>

definition execAsync :: "host \<Rightarrow> cmd \<Rightarrow> unit io" where
  "execAsync h c w =
     (let w1 = w\<lparr>cmds := cmds w @ [c]\<rparr> in
      if exec_ok h w c
      then (Inr (), (case output_of c of None \<Rightarrow> w1 | Some p \<Rightarrow> write_file p w1))
      else (Inl ExecFailed, w1))"

definition stat :: "path \<Rightarrow> int io" where
  "stat p w = (case mtime w p of None \<Rightarrow> (Inl (ENOENT p), w) | Some t \<Rightarrow> (Inr t, w))"

definition unlink :: "path \<Rightarrow> unit io" where
  "unlink p w =
     (case mtime w p of None \<Rightarrow> (Inl (ENOENT p), w)
      | Some _ \<Rightarrow> (Inr (), w\<lparr>mtime := (mtime w)(p := None)\<rparr>))"

text \<open>\<open>fs.mkdir(d, { recursive: true })\<close>: afterwards the directory exists.\<close>

definition mkdir :: "host \<Rightarrow> path \<Rightarrow> unit io" where
  "mkdir h d w =
     (if mkdir_ok h w d then (Inr (), w\<lparr>dirs := insert d (dirs w)\<rparr>)
      else (Inl (MkdirFailed d), w))"

text \<open>
  \<open>fs.writeFile(path.join(dir, name), c)\<close>: the file is written when its directory
  exists; \<open>writeFile\<close> creates no directory and fails with \<open>ENOENT\<close> otherwise.
\<close>

definition writeFile :: "host \<Rightarrow> path \<Rightarrow> string \<Rightarrow> file_content \<Rightarrow> unit io" where
  "writeFile h dir name c w =
     (if dir \<in> dirs w then (Inr (), w\<lparr>disk := disk w @ [(path_join h dir name, c)]\<rparr>)
      else (Inl (ENOENT (path_join h dir name)), w))"

text \<open>\<open>x || dflt\<close> on a number that may be \<open>undefined\<close>, NaN or 0.\<close>

definition or_default :: "nat option \<Rightarrow> nat \<Rightarrow> nat" where
  "or_default v dflt = (case v of None \<Rightarrow> dflt | Some n \<Rightarrow> if n = 0 then dflt else n)"

text \<open>The destructuring \<open>[width, height] = ...\<close>: a missing element is \<open>undefined\<close>.\<close>

definition nth_dim :: "nat option list \<Rightarrow> nat \<Rightarrow> nat option" where
  "nth_dim ds i = (if i < length ds then ds ! i else None)"

section \<open>Derived-media generation\<close>

text \<open>
  The body of the \<open>try\<close> block of \<open>generateWaveformImage\<close>; the result \<open>None\<close> of the
  function itself is the \<open>false\<close> its \<open>catch\<close> block returns.
\<close>

definition waveform_body :: "host \<Rightarrow> path \<Rightarrow> path \<Rightarrow> path \<Rightarrow> path option io" where
  "waveform_body h audioPath outputImagePath cover =
     andThen (mkdir h (path_dirname h outputImagePath)) (\<lambda>_.
     andThen (\<lambda>w. case execAsync h (Probe cover) w of
                     (Inl e, w') \<Rightarrow> (Inl e, w')
                   | (Inr _, w') \<Rightarrow> (Inr (probe_dims h w cover), w')) (\<lambda>dims.
       let targetWidth = or_default (nth_dim dims 0) 1200;
           targetHeight = or_default (nth_dim dims 1) 630;
           tempAudio = replace_image_ext outputImagePath ''-temp.mp3'';
           tempWaveform = replace_image_ext outputImagePath ''-waveform-temp.png''
       in
     andThen (execAsync h (ExtractAudio audioPath tempAudio)) (\<lambda>_.
     andThen (execAsync h (RenderWaveform tempAudio targetWidth targetHeight tempWaveform)) (\<lambda>_.
     andThen (execAsync h (Composite cover tempWaveform outputImagePath)) (\<lambda>_.
     andThen (unlink tempWaveform) (\<lambda>_.
     andThen (unlink tempAudio) (\<lambda>_.
     ret (Some outputImagePath))))))))"

definition generateWaveformImage :: "host \<Rightarrow> path \<Rightarrow> path \<Rightarrow> path \<Rightarrow> path option io" where
  "generateWaveformImage h audioPath outputImagePath cover =
     tryCatch (waveform_body h audioPath outputImagePath cover) (\<lambda>e. ret None)"

text \<open>
  The inner \<open>try\<close> of \<open>generateVideoFromAudio\<close>: \<open>True\<close> when both files exist and
  the video is newer (the function then returns at once); a failing \<open>stat\<close> is swallowed.
\<close>

definition video_up_to_date :: "path \<Rightarrow> path \<Rightarrow> bool io" where
  "video_up_to_date audioPath outputVideoPath =
     tryCatch
       (andThen (stat audioPath) (\<lambda>audioStat.
        andThen (stat outputVideoPath) (\<lambda>videoStat.
        ret (videoStat > audioStat))))
       (\<lambda>err. ret False)"

definition video_body :: "host \<Rightarrow> path \<Rightarrow> path \<Rightarrow> path \<Rightarrow> unit io" where
  "video_body h audioPath outputVideoPath cover =
     andThen (execAsync h FfmpegVersion) (\<lambda>_.
     andThen (video_up_to_date audioPath outputVideoPath) (\<lambda>upToDate.
       if upToDate then ret ()
       else
         andThen (mkdir h (path_dirname h outputVideoPath)) (\<lambda>_.
         execAsync h (EncodeVideo cover audioPath outputVideoPath))))"

definition generateVideoFromAudio :: "host \<Rightarrow> path \<Rightarrow> path \<Rightarrow> path \<Rightarrow> unit io" where
  "generateVideoFromAudio h audioPath outputVideoPath cover =
     tryCatch (video_body h audioPath outputVideoPath cover) (\<lambda>e. ret ())"

section \<open>The media loop\<close>

text \<open>The body of the loop over the entries that generates the derived media.\<close>

definition mediaStep :: "host \<Rightarrow> entry \<Rightarrow> entry io" where
  "mediaStep h e =
     (case musicSource e of
        None \<Rightarrow> ret e
      | Some ms \<Rightarrow>
          if ms \<noteq> [] \<and> ''music'' \<in> set (tags e) then
            (let audioPath = path_join h OUTPUT_DIR ms;
                 videoPath = replace_audio_ext audioPath ''.mp4'';
                 waveformImagePath = replace_audio_ext audioPath ''-waveform.jpg'';
                 cover = (case coverImage e of
                            None \<Rightarrow> AUDIO_COVER_IMAGE
                          | Some c \<Rightarrow> if c \<noteq> [] then path_join h OUTPUT_DIR c
                                      else AUDIO_COVER_IMAGE)
             in
             andThen (generateWaveformImage h audioPath waveformImagePath cover)
               (\<lambda>generatedImagePath.
                  let videoSourceImage =
                        (if truthy generatedImagePath then str_of_opt generatedImagePath
                         else cover)
                  in
                  andThen (generateVideoFromAudio h audioPath videoPath videoSourceImage)
                    (\<lambda>_. ret (e\<lparr> videoSource := JStr (replace_audio_ext ms ''.mp4''),
                                   waveformImage :=
                                     (if truthy generatedImagePath
                                      then JStr (replace_audio_ext ms ''-waveform.jpg'')
                                      else JNull) \<rparr>))))
          else ret e)"

fun processMedia :: "host \<Rightarrow> entry list \<Rightarrow> entry list io" where
  "processMedia h [] = ret []"
| "processMedia h (e # es) =
     andThen (mediaStep h e) (\<lambda>e'.
     andThen (processMedia h es) (\<lambda>es'.
     ret (e' # es')))"

section \<open>The build\<close>

text \<open>
  What a completed run has written: \<open>posts.json\<close>, the post pages, \<open>index.html\<close> and
  \<open>rss.xml\<close>.
\<close>

record site_output =
  posts_json :: "(string \<times> json) list list"
  post_pages :: "post_page list"
  index_cards :: "card list"
  rss_items :: "rss_item list"

definition OUTPUT_POSTS_DIR :: "host \<Rightarrow> path" where
  "OUTPUT_POSTS_DIR h = path_join h OUTPUT_DIR ''posts''"

text \<open>
  The calls of \<open>writePost\<close> inside the \<open>map\<close> over the entries. They are not awaited:
  every page is handed to \<open>fs.writeFile\<close>, and the rejections of the writes that fail
  are collected. Nothing in the build creates the \<open>posts\<close> directory.
\<close>

fun writePosts :: "host \<Rightarrow> entry list \<Rightarrow> world \<Rightarrow> error list \<times> world" where
  "writePosts h [] w = ([], w)"
| "writePosts h (e # es) w =
     (let page = writePost e (tagsHTML e) in
      case writeFile h (OUTPUT_POSTS_DIR h) (pp_file page) (PostFile page) w of
        (r, w1) \<Rightarrow>
          (case writePosts h es w1 of
             (errs, w2) \<Rightarrow> ((case r of Inl err \<Rightarrow> [err] | Inr _ \<Rightarrow> []) @ errs, w2)))"

text \<open>
  The writes of \<open>generateSite\<close>, from \<open>posts.json\<close> to the feed. A rejected page write is
  unhandled and ends the process; the run is taken to end there, before \<open>index.html\<close>
  and \<open>rss.xml\<close> (whether these two still reach the disk depends on timing).
\<close>

definition writeOutputs :: "host \<Rightarrow> entry list \<Rightarrow> postsMetadata list \<Rightarrow> site_output io" where
  "writeOutputs h entries postsMetadata =
     andThen (writeFile h OUTPUT_DIR ''posts.json''
                (ManifestFile (map stringify_record postsMetadata))) (\<lambda>_.
     (\<lambda>w. case writePosts h entries w of
             (err # errs, w1) \<Rightarrow>
               (Inl (UnhandledRejection err), w1)
           | ([], w1) \<Rightarrow>
               andThen (writeFile h OUTPUT_DIR ''index.html''
                          (IndexFile (map portfolioItem entries))) (\<lambda>_.
               andThen (writeFile h OUTPUT_DIR ''rss.xml''
                          (FeedFile (generateRSSFeed entries))) (\<lambda>_.
               ret \<lparr> posts_json = map stringify_record postsMetadata,
                     post_pages = map (\<lambda>e. writePost e (tagsHTML e)) entries,
                     index_cards = map portfolioItem entries,
                     rss_items = generateRSSFeed entries \<rparr>)) w1))"

text \<open>
  \<open>generateSite\<close> on the listing of the content directory (each name with the post read
  from it). The two templates are taken as read, and the tag filter of the home page is
  left out. Every file is written after the manifest records are built.
\<close>

definition generateSite :: "host \<Rightarrow> (string \<times> source_post) list \<Rightarrow> site_output io" where
  "generateSite h files =
     andThen (mkdir h OUTPUT_DIR) (\<lambda>_.
       let markdownFiles = filter (\<lambda>fp. endsWith (fst fp) ''.md'') files;
           parsed = map parseEntry markdownFiles
       in
       andThen (processMedia h parsed) (\<lambda>processed.
         let entries = js_sort compareDates processed in
         (case map_throw metadata_of entries of
            Inl err \<Rightarrow> (\<lambda>w. (Inl err, w))
          | Inr metas \<Rightarrow> writeOutputs h entries metas)))"

section \<open>Predicates of the properties\<close>

text \<open>
  An entry is eligible for derived-media generation when its tags contain \<open>music\<close> and
  its \<open>musicSource\<close> is present.
\<close>

definition eligible :: "entry \<Rightarrow> bool" where
  "eligible e = (truthy (musicSource e) \<and> ''music'' \<in> set (tags e))"

text \<open>
  The entry the media step returns, given the result \<open>g\<close> of the waveform step (the
  two assignments at the end of the loop body).
\<close>

definition with_media :: "entry \<Rightarrow> path option \<Rightarrow> entry" where
  "with_media e g =
     (if eligible e
      then e\<lparr> videoSource := JStr (replace_audio_ext (str_of_opt (musicSource e)) ''.mp4''),
              waveformImage :=
                (if truthy g
                 then JStr (replace_audio_ext (str_of_opt (musicSource e)) ''-waveform.jpg'')
                 else JNull) \<rparr>
      else e)"

text \<open>
  The markdown files of a listing, and the entries as the media loop leaves them, given
  the results \<open>gs\<close> of the waveform steps, before and after the sort.
\<close>

definition markdown_files :: "(string \<times> source_post) list \<Rightarrow> (string \<times> source_post) list" where
  "markdown_files files = filter (\<lambda>fp. endsWith (fst fp) ''.md'') files"

definition processed_entries :: "(string \<times> source_post) list \<Rightarrow> path option list \<Rightarrow> entry list" where
  "processed_entries files gs =
     map (\<lambda>p. with_media (fst p) (snd p)) (zip (map parseEntry (markdown_files files)) gs)"

definition sorted_entries :: "(string \<times> source_post) list \<Rightarrow> path option list \<Rightarrow> entry list" where
  "sorted_entries files gs = js_sort compareDates (processed_entries files gs)"

text \<open>The comparison \<open>a >= b\<close> of two dates (false when either is invalid).\<close>

definition date_ge :: "js_date \<Rightarrow> js_date \<Rightarrow> bool" where
  "date_ge a b = (case (a, b) of (DateMs x, DateMs y) \<Rightarrow> x \<ge> y | _ \<Rightarrow> False)"

text \<open>\<open>b\<close> occurs in the list after the first occurrence of \<open>a\<close>.\<close>

definition appears_before :: "'a \<Rightarrow> 'a \<Rightarrow> 'a list \<Rightarrow> bool" where
  "appears_before a b xs = (b \<in> set (drop 1 (dropWhile (\<lambda>x. x \<noteq> a) xs)))"


text \<open>The still image the media step takes for an entry: its cover image or the default.\<close>

definition cover_of :: "host \<Rightarrow> entry \<Rightarrow> path" where
  "cover_of h e =
     (case coverImage e of
        None \<Rightarrow> AUDIO_COVER_IMAGE
      | Some c \<Rightarrow> if c \<noteq> [] then path_join h OUTPUT_DIR c else AUDIO_COVER_IMAGE)"

text \<open>
  The world after a command has been run with success, and the waveform step's run of
  commands: the directory of the output image can be made and then each command, in the
  order of the source, succeeds in the world its predecessors leave.
\<close>

definition ran :: "cmd \<Rightarrow> world \<Rightarrow> world" where
  "ran c w =
     (case output_of c of
        None \<Rightarrow> w\<lparr>cmds := cmds w @ [c]\<rparr>
      | Some p \<Rightarrow> write_file p (w\<lparr>cmds := cmds w @ [c]\<rparr>))"

definition waveform_steps_ok :: "host \<Rightarrow> path \<Rightarrow> path \<Rightarrow> path \<Rightarrow> world \<Rightarrow> bool" where
  "waveform_steps_ok h audioPath outputImagePath cover w =
     (let w0 = w\<lparr>dirs := insert (path_dirname h outputImagePath) (dirs w)\<rparr>;
          targetWidth = or_default (nth_dim (probe_dims h w0 cover) 0) 1200;
          targetHeight = or_default (nth_dim (probe_dims h w0 cover) 1) 630;
          tempAudio = replace_image_ext outputImagePath ''-temp.mp3'';
          tempWaveform = replace_image_ext outputImagePath ''-waveform-temp.png'';
          probe = Probe cover;
          extract = ExtractAudio audioPath tempAudio;
          render = RenderWaveform tempAudio targetWidth targetHeight tempWaveform;
          composite = Composite cover tempWaveform outputImagePath
      in mkdir_ok h w (path_dirname h outputImagePath) \<and>
         exec_ok h w0 probe \<and>
         exec_ok h (ran probe w0) extract \<and>
         exec_ok h (ran extract (ran probe w0)) render \<and>
         exec_ok h (ran render (ran extract (ran probe w0))) composite)"

text \<open>
  From one world to a later one, the directories only grow and the written files stay.
\<close>

definition grows :: "world \<Rightarrow> world \<Rightarrow> bool" where
  "grows w w' = (dirs w \<subseteq> dirs w' \<and> disk w' = disk w)"

definition keeps :: "'a io \<Rightarrow> bool" where
  "keeps m = (\<forall>w r w'. m w = (r, w') \<longrightarrow> grows w w')"

section \<open>Example inputs\<close>

text \<open>
  A host for the examples. Its \<open>path.join\<close> and \<open>path.dirname\<close> are right on the
  paths of the examples: \<open>./docs\<close> joined with \<open>/music/a.mp3\<close> is \<open>docs/music/a.mp3\<close>.
\<close>

definition example_join :: "path \<Rightarrow> path \<Rightarrow> path" where
  "example_join a b =
     (if take 2 a = ''./'' then drop 2 a else a) @ (if take 1 b = ''/'' then b else CHR ''/'' # b)"

definition example_dirname :: "path \<Rightarrow> path" where
  "example_dirname p = rev (tl (dropWhile (\<lambda>c. c \<noteq> CHR ''/'') (rev p)))"

text \<open>A host on which every command succeeds, and one without the media tool.\<close>

definition host_ok :: host where
  "host_ok = \<lparr> path_join = example_join, path_dirname = example_dirname,
               exec_ok = (\<lambda>w c. True), probe_dims = (\<lambda>w p. [Some 1200, Some 630]),
               mkdir_ok = (\<lambda>w d. True) \<rparr>"

text \<open>A host on which the audio extraction fails and every other command succeeds.\<close>

definition host_no_extract :: host where
  "host_no_extract = \<lparr> path_join = example_join, path_dirname = example_dirname,
               exec_ok = (\<lambda>w c. case c of ExtractAudio _ _ \<Rightarrow> False | _ \<Rightarrow> True),
               probe_dims = (\<lambda>w p. [Some 1200, Some 630]),
               mkdir_ok = (\<lambda>w d. True) \<rparr>"

definition host_no_ffmpeg :: host where
  "host_no_ffmpeg = \<lparr> path_join = example_join, path_dirname = example_dirname,
               exec_ok = (\<lambda>w c. False), probe_dims = (\<lambda>w p. []),
               mkdir_ok = (\<lambda>w d. True) \<rparr>"

text \<open>
  A world in which the audio file of the song post and the \<open>posts\<close> directory exist, and
  the world of a fresh output directory, where nothing exists yet.
\<close>

definition world0 :: world where
  "world0 = \<lparr> mtime = [''docs/music/a.mp3'' \<mapsto> 100], now = 1000, cmds = [],
              dirs = {''docs/posts''}, disk = [] \<rparr>"

definition fresh_world :: world where
  "fresh_world = \<lparr> mtime = Map.empty, now = 1000, cmds = [], dirs = {}, disk = [] \<rparr>"

definition song_post :: source_post where
  "song_post = \<lparr> a_title = JStr ''Song'', a_date = DateMs 1704067200000,
                  a_description = None, a_tags = Some [''music''],
                  a_music_source = Some ''/music/a.mp3'', a_cover_image = None,
                  a_videoSource = JUndefined, a_waveformImage = JUndefined,
                  rendered = ''<p>Listen</p>'' \<rparr>"

definition diary_post :: source_post where
  "diary_post = \<lparr> a_title = JStr ''Diary'', a_date = DateMs 1704067200000,
                   a_description = None, a_tags = None,
                   a_music_source = None, a_cover_image = None,
                   a_videoSource = JUndefined, a_waveformImage = JUndefined,
                   rendered = ''<p>Hello <b>world</b></p>'' \<rparr>"

text \<open>A recording that is not tagged \<open>music\<close>.\<close>

definition talk_post :: source_post where
  "talk_post = \<lparr> a_title = JStr ''Talk'', a_date = DateMs 1706745600000,
                  a_description = Some ''A talk'', a_tags = Some [''talks''],
                  a_music_source = Some ''/audio/talk.mp3'', a_cover_image = None,
                  a_videoSource = JUndefined, a_waveformImage = JUndefined,
                  rendered = ''<p>Slides</p>'' \<rparr>"

text \<open>A post whose \<open>date\<close> does not parse.\<close>

definition undated_post :: source_post where
  "undated_post = \<lparr> a_title = JStr ''Undated'', a_date = InvalidDate,
                     a_description = None, a_tags = None,
                     a_music_source = None, a_cover_image = None,
                   a_videoSource = JUndefined, a_waveformImage = JUndefined,
                     rendered = ''<p>When?</p>'' \<rparr>"

text \<open>The same world once the video exists and is newer than the audio file.\<close>

definition world_with_video :: world where
  "world_with_video = world0\<lparr> mtime := (mtime world0)(''docs/music/a.mp4'' \<mapsto> 200) \<rparr>"

text \<open>A content directory: three posts and a file that is not a post.\<close>

definition example_files :: "(string \<times> source_post) list" where
  "example_files =
     [(''song.md'', song_post), (''notes.txt'', diary_post),
      (''diary.md'', diary_post), (''talk.md'', talk_post)]"

text \<open>Two posts of the same day, and a directory with the diary post alone.\<close>

definition same_day_files :: "(string \<times> source_post) list" where
  "same_day_files = [(''diary.md'', diary_post), (''notes.md'', diary_post)]"


text \<open>
  A post without a title whose content runs past 200 characters inside a tag, and a post
  that is not a music post and whose front matter has a \<open>videoSource\<close> key of its own.
\<close>

definition long_post :: source_post where
  "long_post = \<lparr> a_title = JUndefined, a_date = DateMs 1704067200000,
                  a_description = None, a_tags = None,
                  a_music_source = None, a_cover_image = None,
                  a_videoSource = JUndefined, a_waveformImage = JUndefined,
                  rendered = replicate 198 CHR ''a'' @ ''<b>x</b>'' \<rparr>"



section \<open>Awaited steps: basic facts\<close>

lemma tryCatch_ret:
  "tryCatch m (\<lambda>e. ret d) w =
     (case m w of (Inl e, w') \<Rightarrow> (Inr d, w') | (Inr x, w') \<Rightarrow> (Inr x, w'))"
  by (simp add: tryCatch_def ret_def split: prod.splits sum.splits)

lemma andThen_Inr_iff:
  "andThen m f w = (Inr y, w') \<longleftrightarrow> (\<exists>x w1. m w = (Inr x, w1) \<and> f x w1 = (Inr y, w'))"
  by (auto simp: andThen_def split: prod.splits sum.splits)

lemma andThen_Inr_first:
  "m w = (Inr x, w1) \<Longrightarrow> andThen m f w = f x w1"
  by (simp add: andThen_def)

lemma waveform_body_value:
  "waveform_body h a out c w = (Inr r, w') \<Longrightarrow> r = Some out"
  unfolding waveform_body_def Let_def andThen_Inr_iff
  by (auto simp: ret_def)

lemma generateWaveformImage_total:
  "\<exists>r w'. generateWaveformImage h a out c w = (Inr r, w') \<and> (r = None \<or> r = Some out)"
proof (cases "waveform_body h a out c w")
  case (Pair res w1)
  show ?thesis
  proof (cases res)
    case (Inl e)
    with Pair show ?thesis by (simp add: generateWaveformImage_def tryCatch_ret)
  next
    case (Inr r)
    with Pair waveform_body_value [of h a out c w r w1] show ?thesis
      by (simp add: generateWaveformImage_def tryCatch_ret)
  qed
qed

lemma generateVideoFromAudio_total:
  "\<exists>w'. generateVideoFromAudio h a v c w = (Inr (), w')"
  by (cases "video_body h a v c w")
     (auto simp: generateVideoFromAudio_def tryCatch_ret split: sum.splits)

lemma grows_refl: "grows w w"
  by (simp add: grows_def)

lemma grows_trans: "grows w w1 \<Longrightarrow> grows w1 w2 \<Longrightarrow> grows w w2"
  by (auto simp: grows_def)

lemma keeps_ret: "keeps (ret x)"
  by (simp add: keeps_def ret_def grows_refl)

lemma keeps_andThen:
  assumes "keeps m" and "\<And>x. keeps (f x)"
  shows "keeps (andThen m f)"
  unfolding keeps_def
proof (intro allI impI)
  fix w r w'
  assume run: "andThen m f w = (r, w')"
  obtain r1 w1 where m: "m w = (r1, w1)" by (cases "m w")
  with assms(1) have g1: "grows w w1" by (simp add: keeps_def)
  show "grows w w'"
  proof (cases r1)
    case (Inl e)
    with run m g1 show ?thesis by (simp add: andThen_def)
  next
    case (Inr x)
    with run m have "f x w1 = (r, w')" by (simp add: andThen_def)
    with assms(2) [of x] have "grows w1 w'" by (simp add: keeps_def)
    with g1 show ?thesis by (rule grows_trans)
  qed
qed

lemma keeps_tryCatch:
  assumes "keeps m" and "\<And>e. keeps (f e)"
  shows "keeps (tryCatch m f)"
  unfolding keeps_def
proof (intro allI impI)
  fix w r w'
  assume run: "tryCatch m f w = (r, w')"
  obtain r1 w1 where m: "m w = (r1, w1)" by (cases "m w")
  with assms(1) have g1: "grows w w1" by (simp add: keeps_def)
  show "grows w w'"
  proof (cases r1)
    case (Inr x)
    with run m g1 show ?thesis by (simp add: tryCatch_def)
  next
    case (Inl e)
    with run m have "f e w1 = (r, w')" by (simp add: tryCatch_def)
    with assms(2) [of e] have "grows w1 w'" by (simp add: keeps_def)
    with g1 show ?thesis by (rule grows_trans)
  qed
qed

lemma keeps_execAsync: "keeps (execAsync h c)"
  by (auto simp: keeps_def execAsync_def grows_def write_file_def Let_def
      split: if_splits option.splits)

lemma keeps_stat: "keeps (stat p)"
  by (auto simp: keeps_def stat_def grows_def split: option.splits)

lemma keeps_unlink: "keeps (unlink p)"
  by (auto simp: keeps_def unlink_def grows_def split: option.splits)

lemma keeps_mkdir: "keeps (mkdir h d)"
  by (auto simp: keeps_def mkdir_def grows_def split: if_splits)

lemma keeps_probe:
  "keeps (\<lambda>w. case execAsync h c w of
                     (Inl e, w') \<Rightarrow> (Inl e, w')
                   | (Inr _, w') \<Rightarrow> (Inr (f w), w'))"
  using keeps_execAsync [of h c]
  by (auto simp: keeps_def split: prod.splits sum.splits)

lemma keeps_generateWaveformImage: "keeps (generateWaveformImage h a out c)"
  unfolding generateWaveformImage_def waveform_body_def Let_def
  by (intro keeps_tryCatch keeps_andThen keeps_ret keeps_mkdir keeps_probe
      keeps_execAsync keeps_unlink)

lemma keeps_generateVideoFromAudio: "keeps (generateVideoFromAudio h a v c)"
  unfolding generateVideoFromAudio_def video_body_def video_up_to_date_def
  by (intro keeps_tryCatch keeps_andThen keeps_ret keeps_mkdir keeps_stat keeps_execAsync)
    (auto intro!: keeps_ret keeps_andThen keeps_mkdir keeps_execAsync)

section \<open>The media loop, the sort and the manifest map: basic facts\<close>

lemma mediaStep_plain:
  "\<not> eligible e \<Longrightarrow> mediaStep h e w = (Inr e, w)"
  by (auto simp: mediaStep_def eligible_def truthy_def ret_def split: option.splits)

text \<open>
  The media step of an eligible entry: the waveform step runs in the world of the call,
  the video step in the world the waveform step leaves, on the generated image or on the
  cover image.
\<close>

lemma mediaStep_eligible:
  assumes "eligible e" and ms: "musicSource e = Some ms"
    and g: "generateWaveformImage h (path_join h OUTPUT_DIR ms)
        (replace_audio_ext (path_join h OUTPUT_DIR ms) ''-waveform.jpg'') (cover_of h e) w
          = (Inr g, w1)"
  shows "mediaStep h e w =
      (Inr (with_media e g),
       snd (generateVideoFromAudio h (path_join h OUTPUT_DIR ms)
              (replace_audio_ext (path_join h OUTPUT_DIR ms) ''.mp4'')
              (if truthy g then str_of_opt g else cover_of h e) w1))"
proof -
  from assms have ms': "ms \<noteq> []" "''music'' \<in> set (tags e)"
    by (auto simp: eligible_def truthy_def)
  define audioPath where "audioPath = path_join h OUTPUT_DIR ms"
  obtain w2 where v:
    "generateVideoFromAudio h audioPath (replace_audio_ext audioPath ''.mp4'')
       (if truthy g then str_of_opt g else cover_of h e) w1 = (Inr (), w2)"
    using generateVideoFromAudio_total by blast
  have "mediaStep h e w =
      (Inr (e\<lparr> videoSource := JStr (replace_audio_ext ms ''.mp4''),
               waveformImage :=
                 (if truthy g then JStr (replace_audio_ext ms ''-waveform.jpg'') else JNull) \<rparr>),
       w2)"
    using ms ms' g v
    by (simp add: mediaStep_def Let_def andThen_Inr_first ret_def
        flip: audioPath_def cover_of_def)
  then show ?thesis
    using assms(1) ms v by (simp add: str_of_opt_def with_media_def audioPath_def)
qed

lemma mediaStep_result:
  "\<exists>g w'. mediaStep h e w = (Inr (with_media e g), w')"
proof (cases "eligible e")
  case False
  then show ?thesis by (simp add: mediaStep_plain with_media_def)
next
  case True
  then obtain ms where ms: "musicSource e = Some ms"
    by (auto simp: eligible_def truthy_def split: option.splits)
  obtain g w1 where "generateWaveformImage h (path_join h OUTPUT_DIR ms)
        (replace_audio_ext (path_join h OUTPUT_DIR ms) ''-waveform.jpg'') (cover_of h e) w
          = (Inr g, w1)"
    using generateWaveformImage_total by blast
  from mediaStep_eligible [OF True ms this] show ?thesis by blast
qed

lemma keeps_mediaStep: "keeps (mediaStep h e)"
  unfolding mediaStep_def Let_def
  by (auto intro!: keeps_ret keeps_andThen keeps_generateWaveformImage
      keeps_generateVideoFromAudio split: option.splits)

lemma keeps_processMedia: "keeps (processMedia h es)"
  by (induction es) (auto intro!: keeps_ret keeps_andThen keeps_mediaStep)

lemma processMedia_result:
  "\<exists>gs w'. length gs = length es \<and>
      processMedia h es w = (Inr (map (\<lambda>p. with_media (fst p) (snd p)) (zip es gs)), w')"
proof (induction es arbitrary: w)
  case Nil
  show ?case by (simp add: ret_def)
next
  case (Cons e es)
  obtain g w1 where s: "mediaStep h e w = (Inr (with_media e g), w1)"
    using mediaStep_result by blast
  obtain gs w2 where r: "length gs = length es"
    "processMedia h es w1 = (Inr (map (\<lambda>p. with_media (fst p) (snd p)) (zip es gs)), w2)"
    using Cons.IH by blast
  have "processMedia h (e # es) w =
     (Inr (map (\<lambda>p. with_media (fst p) (snd p)) (zip (e # es) (g # gs))), w2)"
    using s r by (simp add: andThen_Inr_first ret_def)
  moreover have "length (g # gs) = length (e # es)" using r by simp
  ultimately show ?case by blast
qed

lemma processMedia_plain:
  "\<forall>e\<in>set es. \<not> eligible e \<Longrightarrow> processMedia h es w = (Inr es, w)"
proof (induction es)
  case Nil
  show ?case by (simp add: ret_def)
next
  case (Cons e es)
  then have "mediaStep h e w = (Inr e, w)"
    by (simp add: mediaStep_plain)
  with Cons show ?case by (simp add: andThen_def ret_def)
qed

lemma with_media_fields:
  "date (with_media e g) = date e" "slug (with_media e g) = slug e"
  "tags (with_media e g) = tags e" "musicSource (with_media e g) = musicSource e"
  "title (with_media e g) = title e" "description (with_media e g) = description e"
  "content (with_media e g) = content e" "filename (with_media e g) = filename e"
  by (simp_all add: with_media_def)

lemma mset_insert_by: "mset (insert_by cmp x xs) = add_mset x (mset xs)"
  by (induction xs) auto

lemma mset_js_sort: "mset (js_sort cmp xs) = mset xs"
  by (induction xs) (auto simp: mset_insert_by)

lemma set_js_sort: "set (js_sort cmp xs) = set xs"
  using mset_js_sort [of cmp xs] by (metis set_mset_mset)

lemma length_js_sort: "length (js_sort cmp xs) = length xs"
  using mset_js_sort [of cmp xs] by (metis size_mset)

lemma map_throw_Inr:
  "map_throw f xs = Inr ys \<Longrightarrow> map f xs = map Inr ys"
  by (induction xs arbitrary: ys) (auto split: sum.splits)

lemma map_throw_total:
  "\<forall>x\<in>set xs. \<exists>y. f x = Inr y \<Longrightarrow> \<exists>ys. map_throw f xs = Inr ys"
  by (induction xs) (auto split: sum.splits)

lemma map_throw_Inl:
  "map_throw f xs = Inl err \<Longrightarrow> \<exists>x\<in>set xs. f x = Inl err"
  by (induction xs) (auto split: sum.splits)

lemma map_throw_fails:
  "x \<in> set xs \<Longrightarrow> f x = Inl e \<Longrightarrow> \<exists>err. map_throw f xs = Inl err"
  by (induction xs) (auto split: sum.splits)

section \<open>Video generation and the waveform step, command by command\<close>

lemma generateVideoFromAudio_up_to_date:
  assumes "mtime w audioPath = Some ta" and "mtime w outputVideoPath = Some tv" and "tv > ta"
  shows "generateVideoFromAudio h audioPath outputVideoPath cover w =
           (Inr (), w\<lparr>cmds := cmds w @ [FfmpegVersion]\<rparr>)"
  using assms
  by (simp add: generateVideoFromAudio_def video_body_def video_up_to_date_def tryCatch_def
      andThen_def execAsync_def stat_def ret_def Let_def)

text \<open>
  Two runs in a row, on a host whose tool works and with an audio file written in the
  past: the first run leaves a video that the second run finds up to date.
\<close>

lemma video_generated_once:
  assumes audio: "mtime w audioPath = Some ta" and past: "ta < now w"
    and distinct: "outputVideoPath \<noteq> audioPath"
    and tool: "\<forall>w1 k. exec_ok h w1 k" and dirs: "\<forall>w1 d. mkdir_ok h w1 d"
  shows "\<exists>w1 w2. generateVideoFromAudio h audioPath outputVideoPath cover w = (Inr (), w1) \<and>
           generateVideoFromAudio h audioPath outputVideoPath cover w1 = (Inr (), w2) \<and>
           mtime w2 = mtime w1 \<and> cmds w2 = cmds w1 @ [FfmpegVersion]"
proof -
  obtain w1 where w1: "generateVideoFromAudio h audioPath outputVideoPath cover w = (Inr (), w1)"
    using generateVideoFromAudio_total by blast
  have "mtime w1 audioPath = Some ta \<and> (\<exists>tv. mtime w1 outputVideoPath = Some tv \<and> tv > ta)"
    using w1 assms
    by (auto simp: generateVideoFromAudio_def video_body_def video_up_to_date_def tryCatch_def
      andThen_def execAsync_def stat_def ret_def Let_def mkdir_def write_file_def
      split: option.splits if_splits)
  then obtain tv where "mtime w1 audioPath = Some ta" "mtime w1 outputVideoPath = Some tv" "tv > ta"
    by blast
  from generateVideoFromAudio_up_to_date [OF this, of h cover] w1 show ?thesis by simp
qed

lemma replace_image_ext_match:
  "ext = ''.jpg'' \<or> ext = ''.png'' \<Longrightarrow> replace_image_ext (stem @ ext) r = stem @ r"
  by (auto simp: replace_image_ext_def)

lemma replace_image_ext_no_match:
  "\<not> (endsWith out ''.jpg'' \<or> endsWith out ''.png'') \<Longrightarrow> replace_image_ext out r = out"
  by (auto simp: replace_image_ext_def endsWith_def eval_nat_numeral)

lemma image_ext_split:
  assumes "endsWith out ''.jpg'' \<or> endsWith out ''.png''"
  obtains stem ext where "out = stem @ ext" and "ext = ''.jpg'' \<or> ext = ''.png''"
  using assms by (metis endsWith_def append_take_drop_id)

lemma execAsync_eq:
  "execAsync h c w =
     (if exec_ok h w c then (Inr (), ran c w) else (Inl ExecFailed, w\<lparr>cmds := cmds w @ [c]\<rparr>))"
  by (simp add: execAsync_def ran_def Let_def)

lemma mtime_ran:
  "mtime (ran c w) p = (if output_of c = Some p then Some (now w) else mtime w p)"
  by (cases c) (simp_all add: ran_def write_file_def)

lemma generateWaveformImage_exact:
  "fst (generateWaveformImage h a out c w) =
     Inr (if waveform_steps_ok h a out c w \<and> (endsWith out ''.jpg'' \<or> endsWith out ''.png'')
          then Some out else None)"
proof (cases "endsWith out ''.jpg'' \<or> endsWith out ''.png''")
  case True
  then obtain stem ext where out: "out = stem @ ext" and ext: "ext = ''.jpg'' \<or> ext = ''.png''"
    by (rule image_ext_split)
  have t: "replace_image_ext out r = stem @ r" for r
    unfolding out using ext by (rule replace_image_ext_match)
  show ?thesis
    using True
    by (simp add: generateWaveformImage_def waveform_body_def waveform_steps_ok_def t
        tryCatch_def andThen_def mkdir_def execAsync_eq unlink_def mtime_ran ret_def Let_def)
next
  case False
  have t: "replace_image_ext out r = out" for r
    using False by (rule replace_image_ext_no_match)
  show ?thesis
    using False
    by (simp add: generateWaveformImage_def waveform_body_def waveform_steps_ok_def t
        tryCatch_def andThen_def mkdir_def execAsync_eq unlink_def mtime_ran ret_def Let_def)
qed

section \<open>The writes of the build\<close>

lemma writeFile_ok:
  "dir \<in> dirs w \<Longrightarrow>
     writeFile h dir name c w = (Inr (), w\<lparr>disk := disk w @ [(path_join h dir name, c)]\<rparr>)"
  by (simp add: writeFile_def)

lemma writeFile_dirs: "dirs (snd (writeFile h dir name c w)) = dirs w"
  by (simp add: writeFile_def)

lemma writePosts_Cons:
  "writePosts h (e # es) w =
     (let r = writeFile h (OUTPUT_POSTS_DIR h) (pp_file (writePost e (tagsHTML e)))
                (PostFile (writePost e (tagsHTML e))) w
      in ((case fst r of Inl err \<Rightarrow> [err] | Inr _ \<Rightarrow> []) @ fst (writePosts h es (snd r)),
          snd (writePosts h es (snd r))))"
  by (simp add: Let_def split: prod.splits)

lemma writePosts_dirs: "dirs (snd (writePosts h es w)) = dirs w"
proof (induction es arbitrary: w)
  case Nil
  show ?case by simp
next
  case (Cons e es)
  show ?case
    unfolding writePosts_Cons Let_def snd_conv
    by (simp only: Cons writeFile_dirs)
qed

lemma writePosts_disk: "\<exists>rest. disk (snd (writePosts h es w)) = disk w @ rest"
proof (induction es arbitrary: w)
  case Nil
  show ?case by simp
next
  case (Cons e es)
  define w1 where "w1 = snd (writeFile h (OUTPUT_POSTS_DIR h) (pp_file (writePost e (tagsHTML e)))
                          (PostFile (writePost e (tagsHTML e))) w)"
  have a: "\<exists>r. disk w1 = disk w @ r"
    by (simp add: w1_def writeFile_def)
  have b: "snd (writePosts h (e # es) w) = snd (writePosts h es w1)"
    unfolding writePosts_Cons Let_def snd_conv w1_def ..
  from Cons [of w1] a b show ?case by auto
qed

lemma writePosts_ok:
  assumes "OUTPUT_POSTS_DIR h \<in> dirs w"
  shows "fst (writePosts h es w) = []"
  using assms
proof (induction es arbitrary: w)
  case Nil
  show ?case by simp
next
  case (Cons e es)
  have "dirs (snd (writeFile h (OUTPUT_POSTS_DIR h) (pp_file (writePost e (tagsHTML e)))
                          (PostFile (writePost e (tagsHTML e))) w)) = dirs w"
    by (rule writeFile_dirs)
  with Cons show ?case
    unfolding writePosts_Cons Let_def fst_conv
    by (simp add: writeFile_ok del: writePosts.simps)
qed

lemma writeOutputs_unfold:
  assumes "OUTPUT_DIR \<in> dirs w"
    and "writePosts h es
           (w\<lparr>disk := disk w @ [(path_join h OUTPUT_DIR ''posts.json'',
                                   ManifestFile (map stringify_record ms))]\<rparr>) = (errs, w2)"
  shows "writeOutputs h es ms w =
     (case errs of
        err # errs' \<Rightarrow> (Inl (UnhandledRejection err), w2)
      | [] \<Rightarrow>
         (Inr \<lparr> posts_json = map stringify_record ms,
                post_pages = map (\<lambda>e. writePost e (tagsHTML e)) es,
                index_cards = map portfolioItem es,
                rss_items = generateRSSFeed es \<rparr>,
          w2\<lparr>disk := disk w2 @
                 [(path_join h OUTPUT_DIR ''index.html'', IndexFile (map portfolioItem es)),
                  (path_join h OUTPUT_DIR ''rss.xml'', FeedFile (generateRSSFeed es))]\<rparr>))"
proof -
  have d2: "OUTPUT_DIR \<in> dirs w2"
    using writePosts_dirs [of h es "w\<lparr>disk := disk w @ [(path_join h OUTPUT_DIR ''posts.json'',
                                   ManifestFile (map stringify_record ms))]\<rparr>"] assms
    by simp
  show ?thesis
  proof (cases errs)
    case Nil
    with assms d2 show ?thesis
      by (simp add: writeOutputs_def andThen_def writeFile_ok ret_def del: writePosts.simps)
  next
    case (Cons err errs')
    with assms d2 show ?thesis
      by (simp add: writeOutputs_def andThen_def writeFile_ok ret_def del: writePosts.simps)
  qed
qed

lemma writeOutputs_no_dir:
  "OUTPUT_DIR \<notin> dirs w \<Longrightarrow>
     writeOutputs h es ms w = (Inl (ENOENT (path_join h OUTPUT_DIR ''posts.json'')), w)"
  by (simp add: writeOutputs_def andThen_def writeFile_def)

lemma writeOutputs_Inr:
  assumes "writeOutputs h es ms w = (Inr out, w')"
  shows "out = \<lparr> posts_json = map stringify_record ms,
                 post_pages = map (\<lambda>e. writePost e (tagsHTML e)) es,
                 index_cards = map portfolioItem es,
                 rss_items = generateRSSFeed es \<rparr>"
proof (cases "OUTPUT_DIR \<in> dirs w")
  case False
  with assms show ?thesis by (simp add: writeOutputs_no_dir)
next
  case True
  obtain errs w2 where wp: "writePosts h es
           (w\<lparr>disk := disk w @ [(path_join h OUTPUT_DIR ''posts.json'',
                                   ManifestFile (map stringify_record ms))]\<rparr>) = (errs, w2)"
    by (cases "writePosts h es
           (w\<lparr>disk := disk w @ [(path_join h OUTPUT_DIR ''posts.json'',
                                   ManifestFile (map stringify_record ms))]\<rparr>)")
  from writeOutputs_unfold [OF True wp] assms show ?thesis
    by (cases errs) simp_all
qed

lemma writeOutputs_manifest:
  assumes "OUTPUT_DIR \<in> dirs w"
  shows "\<exists>rest. disk (snd (writeOutputs h es ms w)) =
           disk w @ (path_join h OUTPUT_DIR ''posts.json'',
                     ManifestFile (map stringify_record ms)) # rest"
proof -
  obtain errs w2 where wp: "writePosts h es
           (w\<lparr>disk := disk w @ [(path_join h OUTPUT_DIR ''posts.json'',
                                   ManifestFile (map stringify_record ms))]\<rparr>) = (errs, w2)"
    by (cases "writePosts h es
           (w\<lparr>disk := disk w @ [(path_join h OUTPUT_DIR ''posts.json'',
                                   ManifestFile (map stringify_record ms))]\<rparr>)")
  from writePosts_disk [of h es "w\<lparr>disk := disk w @ [(path_join h OUTPUT_DIR ''posts.json'',
                                   ManifestFile (map stringify_record ms))]\<rparr>"] wp
  obtain r where r: "disk w2 = disk w @ (path_join h OUTPUT_DIR ''posts.json'',
                     ManifestFile (map stringify_record ms)) # r"
    by auto
  from writeOutputs_unfold [OF assms wp] r show ?thesis
    by (cases errs) simp_all
qed

lemma writeOutputs_ok:
  assumes "OUTPUT_DIR \<in> dirs w" and "OUTPUT_POSTS_DIR h \<in> dirs w"
  shows "\<exists>w'. writeOutputs h es ms w =
           (Inr \<lparr> posts_json = map stringify_record ms,
                  post_pages = map (\<lambda>e. writePost e (tagsHTML e)) es,
                  index_cards = map portfolioItem es,
                  rss_items = generateRSSFeed es \<rparr>, w')"
proof -
  obtain errs w2 where wp: "writePosts h es
           (w\<lparr>disk := disk w @ [(path_join h OUTPUT_DIR ''posts.json'',
                                   ManifestFile (map stringify_record ms))]\<rparr>) = (errs, w2)"
    by (cases "writePosts h es
           (w\<lparr>disk := disk w @ [(path_join h OUTPUT_DIR ''posts.json'',
                                   ManifestFile (map stringify_record ms))]\<rparr>)")
  have "fst (writePosts h es
           (w\<lparr>disk := disk w @ [(path_join h OUTPUT_DIR ''posts.json'',
                                   ManifestFile (map stringify_record ms))]\<rparr>)) = []"
    using assms(2) by (intro writePosts_ok) simp
  with wp have "errs = []" by simp
  with writeOutputs_unfold [OF assms(1) wp] show ?thesis by simp
qed

lemma writeOutputs_fresh:
  assumes "OUTPUT_DIR \<in> dirs w" and "OUTPUT_POSTS_DIR h \<notin> dirs w" and "es \<noteq> []"
  shows "\<exists>p w'. writeOutputs h es ms w = (Inl (UnhandledRejection (ENOENT p)), w')"
proof -
  obtain errs w2 where wp: "writePosts h es
           (w\<lparr>disk := disk w @ [(path_join h OUTPUT_DIR ''posts.json'',
                                   ManifestFile (map stringify_record ms))]\<rparr>) = (errs, w2)"
    by (cases "writePosts h es
           (w\<lparr>disk := disk w @ [(path_join h OUTPUT_DIR ''posts.json'',
                                   ManifestFile (map stringify_record ms))]\<rparr>)")
  from assms(3) obtain e es' where es: "es = e # es'" by (cases es) auto
  have "\<exists>p t. errs = ENOENT p # t"
    using wp assms(2) unfolding es writePosts_Cons Let_def
    by (auto simp: writeFile_def)
  then obtain p t where "errs = ENOENT p # t" by blast
  with writeOutputs_unfold [OF assms(1) wp] show ?thesis by simp
qed

section \<open>The build, stage by stage\<close>

lemma generateSite_no_output_dir:
  "\<not> mkdir_ok h w OUTPUT_DIR \<Longrightarrow> generateSite h files w = (Inl (MkdirFailed OUTPUT_DIR), w)"
  by (simp add: generateSite_def andThen_def mkdir_def)

text \<open>
  The build up to the manifest records: the output directory exists from then on, and
  nothing has been written yet.
\<close>

lemma generateSite_unfold:
  assumes "mkdir_ok h w OUTPUT_DIR"
  shows "\<exists>gs w1. length gs = length (markdown_files files) \<and>
     OUTPUT_DIR \<in> dirs w1 \<and> dirs w \<subseteq> dirs w1 \<and> disk w1 = disk w \<and>
     generateSite h files w =
       (case map_throw metadata_of (sorted_entries files gs) of
          Inl err \<Rightarrow> (Inl err, w1)
        | Inr metas \<Rightarrow> writeOutputs h (sorted_entries files gs) metas w1)"
proof -
  define w0 where "w0 = w\<lparr>dirs := insert OUTPUT_DIR (dirs w)\<rparr>"
  obtain gs w1 where gs: "length gs = length (map parseEntry (markdown_files files))"
    and pm: "processMedia h (map parseEntry (markdown_files files)) w0 =
       (Inr (processed_entries files gs), w1)"
    unfolding processed_entries_def using processMedia_result by blast
  have "grows w0 w1"
    using keeps_processMedia pm by (simp add: keeps_def)
  then have g: "OUTPUT_DIR \<in> dirs w1" "dirs w \<subseteq> dirs w1" "disk w1 = disk w"
    by (auto simp: grows_def w0_def)
  have "generateSite h files w =
       (case map_throw metadata_of (sorted_entries files gs) of
          Inl err \<Rightarrow> (Inl err, w1)
        | Inr metas \<Rightarrow> writeOutputs h (sorted_entries files gs) metas w1)"
    using assms pm
    by (simp add: generateSite_def andThen_def mkdir_def Let_def sorted_entries_def
        flip: markdown_files_def w0_def split: sum.splits)
  with gs g show ?thesis by auto
qed

lemma generateSite_Inr:
  assumes "generateSite h files w = (Inr out, w')"
  shows "\<exists>gs metas. length gs = length (markdown_files files) \<and>
     map_throw metadata_of (sorted_entries files gs) = Inr metas \<and>
     out = \<lparr> posts_json = map stringify_record metas,
                   post_pages = map (\<lambda>e. writePost e (tagsHTML e)) (sorted_entries files gs),
                   index_cards = map portfolioItem (sorted_entries files gs),
                   rss_items = generateRSSFeed (sorted_entries files gs) \<rparr>"
proof (cases "mkdir_ok h w OUTPUT_DIR")
  case False
  with assms show ?thesis by (simp add: generateSite_no_output_dir)
next
  case True
  from generateSite_unfold [OF True, of files] obtain gs w1 where
    len: "length gs = length (markdown_files files)" and
    eq: "generateSite h files w =
       (case map_throw metadata_of (sorted_entries files gs) of
          Inl err \<Rightarrow> (Inl err, w1)
        | Inr metas \<Rightarrow> writeOutputs h (sorted_entries files gs) metas w1)"
    by blast
  show ?thesis
  proof (cases "map_throw metadata_of (sorted_entries files gs)")
    case (Inl err)
    with eq assms show ?thesis by simp
  next
    case (Inr metas)
    with eq assms have "writeOutputs h (sorted_entries files gs) metas w1 = (Inr out, w')"
      by simp
    from writeOutputs_Inr [OF this] Inr len show ?thesis by blast
  qed
qed

section \<open>Entries, records and slugs\<close>

lemma map_processed_entries:
  assumes "length gs = length (markdown_files files)"
    and "\<And>e g. f (with_media e g) = f e"
  shows "map f (processed_entries files gs) = map (\<lambda>fp. f (parseEntry fp)) (markdown_files files)"
proof -
  have "\<And>gs. length gs = length es \<Longrightarrow>
      map f (map (\<lambda>p. with_media (fst p) (snd p)) (zip es gs)) = map f es" for es :: "entry list"
  proof (induction es)
    case Nil
    show ?case by simp
  next
    case (Cons e es)
    then show ?case by (cases gs) (auto simp: assms(2))
  qed
  from this [of gs "map parseEntry (markdown_files files)"] assms(1) show ?thesis
    by (simp add: processed_entries_def comp_def)
qed

lemma parseEntry_fields:
  "date (parseEntry fp) = a_date (snd fp)"
  "slug (parseEntry fp) = basename (fst fp) ''.md''"
  "title (parseEntry fp) = a_title (snd fp)"
  "description (parseEntry fp) = a_description (snd fp)"
  "content (parseEntry fp) = rendered (snd fp)"
  "musicSource (parseEntry fp) = or_null (a_music_source (snd fp))"
  "videoSource (parseEntry fp) = a_videoSource (snd fp)"
  "waveformImage (parseEntry fp) = a_waveformImage (snd fp)"
  by (cases fp; simp add: parseEntry_def)+

lemma metadata_of_Inr_iff: "(\<exists>m. metadata_of e = Inr m) \<longleftrightarrow> date e \<noteq> InvalidDate"
  by (cases "date e") (simp_all add: metadata_of_def toISOString_def)

lemma metadata_of_slug: "metadata_of e = Inr m \<Longrightarrow> m_slug m = slug e"
  by (cases "date e") (auto simp: metadata_of_def toISOString_def)

lemma metadata_of_Inl: "metadata_of e = Inl err \<Longrightarrow> err = RangeError \<and> date e = InvalidDate"
  by (cases "date e") (auto simp: metadata_of_def toISOString_def)

lemma dates_of_sorted_entries:
  assumes "length gs = length (markdown_files files)"
  shows "date ` set (sorted_entries files gs) = (\<lambda>fp. a_date (snd fp)) ` set (markdown_files files)"
proof -
  have "date ` set (sorted_entries files gs) = set (map date (processed_entries files gs))"
    by (simp add: sorted_entries_def set_js_sort)
  also have "\<dots> = set (map (\<lambda>fp. date (parseEntry fp)) (markdown_files files))"
    using map_processed_entries [OF assms, of date] by (simp add: with_media_fields)
  also have "\<dots> = (\<lambda>fp. a_date (snd fp)) ` set (markdown_files files)"
    by (simp add: parseEntry_fields)
  finally show ?thesis .
qed

lemma metadata_of_sorted_entries:
  assumes len: "length gs = length (markdown_files files)"
    and valid: "\<forall>fp\<in>set (markdown_files files). a_date (snd fp) \<noteq> InvalidDate"
  shows "\<exists>metas. map_throw metadata_of (sorted_entries files gs) = Inr metas"
proof -
  have "\<forall>e\<in>set (sorted_entries files gs). date e \<noteq> InvalidDate"
    using dates_of_sorted_entries [OF len] valid by (metis (no_types, lifting) imageE imageI)
  then have "\<forall>e\<in>set (sorted_entries files gs). \<exists>m. metadata_of e = Inr m"
    by (simp add: metadata_of_Inr_iff)
  from map_throw_total [OF this] show ?thesis .
qed

text \<open>
  With the output directory made and every date valid, the manifest is the first file
  the run writes, whatever the run does afterwards.
\<close>

lemma generateSite_manifest:
  assumes dir: "mkdir_ok h w OUTPUT_DIR"
    and valid: "\<forall>fp\<in>set (markdown_files files). a_date (snd fp) \<noteq> InvalidDate"
  shows "\<exists>gs metas res w' rest. length gs = length (markdown_files files) \<and>
     map_throw metadata_of (sorted_entries files gs) = Inr metas \<and>
     generateSite h files w = (res, w') \<and>
     disk w' = disk w @ (path_join h OUTPUT_DIR ''posts.json'',
                         ManifestFile (map stringify_record metas)) # rest \<and>
     (\<forall>out. res = Inr out \<longrightarrow> posts_json out = map stringify_record metas)"
proof -
  from generateSite_unfold [OF dir, of files] obtain gs w1 where
    len: "length gs = length (markdown_files files)" and
    d: "OUTPUT_DIR \<in> dirs w1" "disk w1 = disk w" and
    eq: "generateSite h files w =
       (case map_throw metadata_of (sorted_entries files gs) of
          Inl err \<Rightarrow> (Inl err, w1)
        | Inr metas \<Rightarrow> writeOutputs h (sorted_entries files gs) metas w1)"
    by blast
  from metadata_of_sorted_entries [OF len valid] obtain metas where
    metas: "map_throw metadata_of (sorted_entries files gs) = Inr metas" by blast
  obtain res w' where run: "writeOutputs h (sorted_entries files gs) metas w1 = (res, w')"
    by (cases "writeOutputs h (sorted_entries files gs) metas w1")
  from writeOutputs_manifest [OF d(1), of h "sorted_entries files gs" metas] run d(2)
  obtain rest where rest: "disk w' = disk w @ (path_join h OUTPUT_DIR ''posts.json'',
                         ManifestFile (map stringify_record metas)) # rest"
    by auto
  have "\<forall>out. res = Inr out \<longrightarrow> posts_json out = map stringify_record metas"
    using writeOutputs_Inr run by fastforce
  with len metas eq run rest show ?thesis by auto
qed

lemma generateSite_succeeds:
  assumes dir: "mkdir_ok h w OUTPUT_DIR"
    and valid: "\<forall>fp\<in>set (markdown_files files). a_date (snd fp) \<noteq> InvalidDate"
    and posts: "OUTPUT_POSTS_DIR h \<in> dirs w"
  shows "\<exists>out w'. generateSite h files w = (Inr out, w')"
proof -
  from generateSite_unfold [OF dir, of files] obtain gs w1 where
    len: "length gs = length (markdown_files files)" and
    d: "OUTPUT_DIR \<in> dirs w1" "dirs w \<subseteq> dirs w1" and
    eq: "generateSite h files w =
       (case map_throw metadata_of (sorted_entries files gs) of
          Inl err \<Rightarrow> (Inl err, w1)
        | Inr metas \<Rightarrow> writeOutputs h (sorted_entries files gs) metas w1)"
    by blast
  from metadata_of_sorted_entries [OF len valid] obtain metas where
    metas: "map_throw metadata_of (sorted_entries files gs) = Inr metas" by blast
  have "OUTPUT_POSTS_DIR h \<in> dirs w1" using posts d(2) by auto
  from writeOutputs_ok [OF d(1) this, of "sorted_entries files gs" metas] eq metas
  show ?thesis by auto
qed

lemma basename_md: "endsWith file ''.md'' \<Longrightarrow> basename file ''.md'' @ ''.md'' = file"
  by (auto simp: basename_def endsWith_def) (metis append_take_drop_id)

lemma slug_of_record: "map_of (stringify_record m) ''slug'' = Some (JsonString (m_slug m))"
  by (cases "m_title m") (simp_all add: stringify_record_def json_prop_def)

section \<open>A host without the media tool\<close>

lemma generateWaveformImage_without_tool:
  assumes "\<And>w1. \<not> exec_ok h w1 (Probe c)" and "mkdir_ok h w (path_dirname h out)"
  shows "generateWaveformImage h a out c w =
     (Inr None, w\<lparr>dirs := insert (path_dirname h out) (dirs w), cmds := cmds w @ [Probe c]\<rparr>)"
  using assms
  by (simp add: generateWaveformImage_def waveform_body_def tryCatch_def andThen_def
      mkdir_def execAsync_def ret_def Let_def)

lemma generateVideoFromAudio_without_tool:
  assumes "\<not> exec_ok h w FfmpegVersion"
  shows "generateVideoFromAudio h a v c w = (Inr (), w\<lparr>cmds := cmds w @ [FfmpegVersion]\<rparr>)"
  using assms
  by (simp add: generateVideoFromAudio_def video_body_def tryCatch_def andThen_def
      execAsync_def ret_def Let_def)

lemma replace_audio_ext_example:
  "replace_audio_ext ''/music/a.mp3'' r = ''/music/a'' @ r"
  "replace_audio_ext ''docs/music/a.mp3'' r = ''docs/music/a'' @ r"
  by (simp_all add: replace_audio_ext_def lower_def)

lemma song_entry:
  "parseEntry (''song.md'', song_post) =
     \<lparr> title = JStr ''Song'', description = None, content = ''<p>Listen</p>'',
       date = DateMs 1704067200000, tags = [''music''], slug = ''song'',
       filename = ''song.md'', musicSource = Some ''/music/a.mp3'', coverImage = None,
       videoSource = JUndefined, waveformImage = JUndefined \<rparr>"
  by (simp add: parseEntry_def song_post_def or_null_def truthy_def basename_def endsWith_def)

lemma mediaStep_song_without_tool:
  "mediaStep host_no_ffmpeg (parseEntry (''song.md'', song_post)) w =
     (Inr ((parseEntry (''song.md'', song_post))
            \<lparr> videoSource := JStr ''/music/a.mp4'', waveformImage := JNull \<rparr>),
      w\<lparr>dirs := insert ''docs/music'' (dirs w),
        cmds := cmds w @ [Probe ''./audio-cover.jpg'', FfmpegVersion]\<rparr>)"
proof -
  have h: "\<And>w k. \<not> exec_ok host_no_ffmpeg w k" "\<And>w d. mkdir_ok host_no_ffmpeg w d"
    "path_join host_no_ffmpeg = example_join" "path_dirname host_no_ffmpeg = example_dirname"
    by (simp_all add: host_no_ffmpeg_def)
  have j: "example_join OUTPUT_DIR ''/music/a.mp3'' = ''docs/music/a.mp3''"
    by (simp add: example_join_def OUTPUT_DIR_def)
  have d: "example_dirname ''docs/music/a-waveform.jpg'' = ''docs/music''"
    by (simp add: example_dirname_def)
  show ?thesis
    by (simp add: song_entry mediaStep_def h j d replace_audio_ext_example AUDIO_COVER_IMAGE_def
        generateWaveformImage_without_tool generateVideoFromAudio_without_tool
        andThen_def ret_def truthy_def Let_def)
qed

lemma og_song_without_tool:
  "generateOpenGraphTags ((parseEntry (''song.md'', song_post))
            \<lparr> videoSource := JStr ''/music/a.mp4'', waveformImage := JNull \<rparr>) =
     [Property ''og:title'' ''Song'',
      Property ''og:description'' ''Listen'',
      Property ''og:url'' ''https://words.aubrey.page/posts/song'',
      Property ''og:site_name'' ''Aubrey McCarthy - Words'',
      Name ''twitter:card'' ''summary_large_image'',
      Name ''twitter:title'' ''Song'',
      Name ''twitter:description'' ''Listen'',
      Property ''og:type'' ''video.other'',
      Property ''og:video'' ''https://words.aubrey.page/music/a.mp4'',
      Property ''og:video:secure_url'' ''https://words.aubrey.page/music/a.mp4'',
      Property ''og:video:type'' ''video/mp4'',
      Property ''og:audio'' ''https://words.aubrey.page/music/a.mp3'',
      Property ''og:audio:type'' ''audio/mpeg'',
      Property ''music:musician'' ''Aubrey McCarthy'',
      Name ''twitter:player'' ''https://words.aubrey.page/music/a.mp4'']"
  by (simp add: song_entry generateOpenGraphTags_def truthy_def truthy_val_def str_of_opt_def
      str_of_val_def site_url_def site_title_def site_author_def Let_def)

text \<open>
  A music post whose \<open>videoSource\<close> is unset gets no \<open>og:type\<close> element at all.
\<close>

lemma og_type_missing_without_video:
  assumes "eligible e" and "videoSource e = JUndefined"
  shows "\<forall>t. Property ''og:type'' t \<notin> set (generateOpenGraphTags e)"
  using assms
  by (auto simp: generateOpenGraphTags_def eligible_def truthy_val_def Let_def)

lemma example_posts_dir:
  "OUTPUT_POSTS_DIR host_ok = ''docs/posts''" "OUTPUT_POSTS_DIR host_no_ffmpeg = ''docs/posts''"
  "OUTPUT_POSTS_DIR host_no_extract = ''docs/posts''"
  by (simp_all add: OUTPUT_POSTS_DIR_def host_ok_def host_no_ffmpeg_def host_no_extract_def
      example_join_def OUTPUT_DIR_def)

lemma writePosts_mtime: "mtime (snd (writePosts h es w)) = mtime w"
proof (induction es arbitrary: w)
  case Nil
  show ?case by simp
next
  case (Cons e es)
  have "mtime (snd (writeFile h (OUTPUT_POSTS_DIR h) (pp_file (writePost e (tagsHTML e)))
                          (PostFile (writePost e (tagsHTML e))) w)) = mtime w"
    by (simp add: writeFile_def)
  then show ?case
    unfolding writePosts_Cons Let_def snd_conv
    by (simp only: Cons)
qed

lemma writeOutputs_mtime: "mtime (snd (writeOutputs h es ms w)) = mtime w"
proof (cases "OUTPUT_DIR \<in> dirs w")
  case False
  then show ?thesis by (simp add: writeOutputs_no_dir)
next
  case True
  obtain errs w2 where wp: "writePosts h es
           (w\<lparr>disk := disk w @ [(path_join h OUTPUT_DIR ''posts.json'',
                                   ManifestFile (map stringify_record ms))]\<rparr>) = (errs, w2)"
    by (cases "writePosts h es
           (w\<lparr>disk := disk w @ [(path_join h OUTPUT_DIR ''posts.json'',
                                   ManifestFile (map stringify_record ms))]\<rparr>)")
  have "mtime w2 = mtime w"
    using writePosts_mtime [of h es "w\<lparr>disk := disk w @ [(path_join h OUTPUT_DIR ''posts.json'',
                                   ManifestFile (map stringify_record ms))]\<rparr>"] wp
    by simp
  with writeOutputs_unfold [OF True wp] show ?thesis
    by (cases errs) simp_all
qed

lemma og_build_song_without_tool:
  "\<exists>w'. generateSite host_no_ffmpeg [(''song.md'', song_post)] world0 =
     (Inr \<lparr> posts_json = map stringify_record
              [\<lparr> m_title = JStr ''Song'', m_date = 1704067200000, m_tags = [''music''],
                 m_slug = ''song'', m_description = [], m_musicSource = Some ''/music/a.mp3'',
                 m_videoSource = JStr ''/music/a.mp4'', m_waveformImage = JNull \<rparr>],
             post_pages = map (\<lambda>e. writePost e (tagsHTML e))
               [(parseEntry (''song.md'', song_post))
                  \<lparr> videoSource := JStr ''/music/a.mp4'', waveformImage := JNull \<rparr>],
             index_cards = map portfolioItem
               [(parseEntry (''song.md'', song_post))
                  \<lparr> videoSource := JStr ''/music/a.mp4'', waveformImage := JNull \<rparr>],
             rss_items = generateRSSFeed
               [(parseEntry (''song.md'', song_post))
                  \<lparr> videoSource := JStr ''/music/a.mp4'', waveformImage := JNull \<rparr>] \<rparr>, w') \<and>
     mtime w' = mtime world0"
proof -
  have dir: "\<And>w d. mkdir_ok host_no_ffmpeg w d"
    by (simp add: host_no_ffmpeg_def)
  have md: "endsWith ''song.md'' ''.md''"
    by (simp add: endsWith_def)
  define e where "e = (parseEntry (''song.md'', song_post))
                  \<lparr> videoSource := JStr ''/music/a.mp4'', waveformImage := JNull \<rparr>"
  define M where "M = [\<lparr> m_title = JStr ''Song'', m_date = 1704067200000,
                 m_tags = [''music''],
                 m_slug = ''song'', m_description = [], m_musicSource = Some ''/music/a.mp3'',
                 m_videoSource = JStr ''/music/a.mp4'', m_waveformImage = JNull \<rparr>]"
  define w1 where "w1 = world0\<lparr>dirs := insert ''docs/music'' (insert OUTPUT_DIR (dirs world0)),
        cmds := [Probe ''./audio-cover.jpg'', FfmpegVersion]\<rparr>"
  have m: "map_throw metadata_of [e] = Inr M"
    by (simp add: e_def M_def song_entry metadata_of_def toISOString_def truthy_def)
  have d1: "OUTPUT_DIR \<in> dirs w1" "OUTPUT_POSTS_DIR host_no_ffmpeg \<in> dirs w1"
    by (simp_all add: w1_def world0_def example_posts_dir)
  have pm: "processMedia host_no_ffmpeg [parseEntry (''song.md'', song_post)]
              (world0\<lparr>dirs := insert OUTPUT_DIR (dirs world0)\<rparr>) = (Inr [e], w1)"
    by (simp add: mediaStep_song_without_tool andThen_def ret_def e_def w1_def world0_def)
  have eq: "generateSite host_no_ffmpeg [(''song.md'', song_post)] world0 =
      writeOutputs host_no_ffmpeg [e] M w1"
    by (simp add: generateSite_def md dir mkdir_def andThen_def Let_def pm m
        del: processMedia.simps map_throw.simps)
  obtain w' where w': "writeOutputs host_no_ffmpeg [e] M w1 =
      (Inr \<lparr> posts_json = map stringify_record M,
             post_pages = map (\<lambda>e. writePost e (tagsHTML e)) [e],
             index_cards = map portfolioItem [e],
             rss_items = generateRSSFeed [e] \<rparr>, w')"
    using writeOutputs_ok [OF d1] by blast
  have "mtime (snd (writeOutputs host_no_ffmpeg [e] M w1)) = mtime w1"
    by (rule writeOutputs_mtime)
  then have "mtime w' = mtime w1" unfolding w' snd_conv .
  then have mt: "mtime w' = mtime world0" by (simp add: w1_def)
  show ?thesis
    unfolding eq w' using mt by (simp only: M_def e_def) simp
qed

section \<open>The records of the manifest and the builds of the example directories\<close>

lemma undated_entry:
  "parseEntry (''undated.md'', undated_post) =
     \<lparr> title = JStr ''Undated'', description = None, content = ''<p>When?</p>'',
       date = InvalidDate, tags = [], slug = ''undated'',
       filename = ''undated.md'', musicSource = None, coverImage = None,
       videoSource = JUndefined, waveformImage = JUndefined \<rparr>"
  by (simp add: parseEntry_def undated_post_def or_null_def truthy_def basename_def endsWith_def)

lemma compareDates_invalid:
  "date a = InvalidDate \<Longrightarrow> compareDates a b = 0 \<and> compareDates b a = 0"
  by (cases "date b") (simp_all add: compareDates_def)







lemma generateSite_plain:
  assumes dir: "mkdir_ok h w OUTPUT_DIR"
    and plain: "\<forall>fp\<in>set (markdown_files files). \<not> eligible (parseEntry fp)"
  shows "generateSite h files w =
       (case map_throw metadata_of (js_sort compareDates (map parseEntry (markdown_files files))) of
          Inl err \<Rightarrow> (Inl err, w\<lparr>dirs := insert OUTPUT_DIR (dirs w)\<rparr>)
        | Inr metas \<Rightarrow>
            writeOutputs h (js_sort compareDates (map parseEntry (markdown_files files))) metas
              (w\<lparr>dirs := insert OUTPUT_DIR (dirs w)\<rparr>))"
proof -
  have "processMedia h (map parseEntry (markdown_files files))
          (w\<lparr>dirs := insert OUTPUT_DIR (dirs w)\<rparr>) =
      (Inr (map parseEntry (markdown_files files)), w\<lparr>dirs := insert OUTPUT_DIR (dirs w)\<rparr>)"
    using plain by (intro processMedia_plain) simp
  then show ?thesis
    using dir
    by (simp add: generateSite_def andThen_def mkdir_def Let_def
        flip: markdown_files_def split: sum.splits)
qed

text \<open>A build without eligible entries, in a world where the \<open>posts\<close> directory exists.\<close>

lemma generateSite_plain_ok:
  assumes dir: "mkdir_ok h w OUTPUT_DIR"
    and plain: "\<forall>fp\<in>set (markdown_files files). \<not> eligible (parseEntry fp)"
    and posts: "OUTPUT_POSTS_DIR h \<in> dirs w"
    and metas: "map_throw metadata_of
                  (js_sort compareDates (map parseEntry (markdown_files files))) = Inr metas"
  shows "\<exists>w'. generateSite h files w =
     (Inr \<lparr> posts_json = map stringify_record metas,
            post_pages = map (\<lambda>e. writePost e (tagsHTML e))
              (js_sort compareDates (map parseEntry (markdown_files files))),
            index_cards = map portfolioItem
              (js_sort compareDates (map parseEntry (markdown_files files))),
            rss_items = generateRSSFeed
              (js_sort compareDates (map parseEntry (markdown_files files))) \<rparr>, w')"
proof -
  have d: "OUTPUT_DIR \<in> dirs (w\<lparr>dirs := insert OUTPUT_DIR (dirs w)\<rparr>)"
    "OUTPUT_POSTS_DIR h \<in> dirs (w\<lparr>dirs := insert OUTPUT_DIR (dirs w)\<rparr>)"
    using posts by simp_all
  from writeOutputs_ok [OF d] generateSite_plain [OF dir plain] metas
  show ?thesis by simp
qed

lemma diary_entry:
  "parseEntry (f, diary_post) =
     \<lparr> title = JStr ''Diary'', description = None, content = ''<p>Hello <b>world</b></p>'',
       date = DateMs 1704067200000, tags = [], slug = basename f ''.md'',
       filename = f, musicSource = None, coverImage = None,
       videoSource = JUndefined, waveformImage = JUndefined \<rparr>"
  by (simp add: parseEntry_def diary_post_def or_null_def truthy_def)

lemma example_world_ok:
  "mkdir_ok host_ok world0 OUTPUT_DIR" "OUTPUT_POSTS_DIR host_ok \<in> dirs world0"
  by (simp add: host_ok_def) (simp add: world0_def example_posts_dir)


lemma same_day_build:
  "\<exists>site w'. generateSite host_ok same_day_files world0 = (Inr site, w') \<and>
      map c_slug (index_cards site) = [''diary'', ''notes''] \<and>
      map c_date (index_cards site) = [DateMs 1704067200000, DateMs 1704067200000]"
proof -
  have md: "markdown_files same_day_files = [(''diary.md'', diary_post), (''notes.md'', diary_post)]"
    by (simp add: markdown_files_def same_day_files_def endsWith_def)
  have plain: "\<forall>fp\<in>set (markdown_files same_day_files). \<not> eligible (parseEntry fp)"
    by (simp add: md diary_entry eligible_def truthy_def)
  have sorted: "js_sort compareDates (map parseEntry (markdown_files same_day_files)) =
      [parseEntry (''diary.md'', diary_post), parseEntry (''notes.md'', diary_post)]"
    by (simp add: md diary_entry compareDates_def)
  have "\<exists>metas. map_throw metadata_of
      (js_sort compareDates (map parseEntry (markdown_files same_day_files))) = Inr metas"
    by (simp add: sorted diary_entry metadata_of_def toISOString_def)
  then obtain metas where metas: "map_throw metadata_of
      (js_sort compareDates (map parseEntry (markdown_files same_day_files))) = Inr metas" ..
  from generateSite_plain_ok [OF example_world_ok(1) plain example_world_ok(2) metas]
  show ?thesis
    by (auto simp: sorted diary_entry portfolioItem_def basename_def endsWith_def)
qed

section \<open>The sort by date\<close>

lemma set_insert_by: "set (insert_by cmp x xs) = insert x (set xs)"
  by (induction xs) auto

lemma date_ge_compareDates:
  assumes "date a \<noteq> InvalidDate" and "date b \<noteq> InvalidDate"
  shows "compareDates a b \<le> 0 \<longleftrightarrow> date_ge (date a) (date b)"
  using assms by (cases "date a"; cases "date b") (simp_all add: compareDates_def date_ge_def)

lemma date_ge_total:
  assumes "a \<noteq> InvalidDate" and "b \<noteq> InvalidDate"
  shows "date_ge a b \<or> date_ge b a"
  using assms by (cases a; cases b) (auto simp: date_ge_def)

lemma date_ge_trans: "date_ge a b \<Longrightarrow> date_ge b c \<Longrightarrow> date_ge a c"
  by (cases a; cases b; cases c) (simp_all add: date_ge_def)

lemma sorted_insert_by:
  assumes "date x \<noteq> InvalidDate" and "\<forall>e\<in>set ys. date e \<noteq> InvalidDate"
    and "sorted_wrt (\<lambda>a b. date_ge (date a) (date b)) ys"
  shows "sorted_wrt (\<lambda>a b. date_ge (date a) (date b)) (insert_by compareDates x ys)"
  using assms
proof (induction ys)
  case Nil
  show ?case by simp
next
  case (Cons y ys)
  show ?case
  proof (cases "compareDates x y \<le> 0")
    case True
    then have xy: "date_ge (date x) (date y)"
      using date_ge_compareDates [of x y] Cons.prems by simp
    have "\<forall>z\<in>set ys. date_ge (date x) (date z)"
      using Cons.prems(3) xy date_ge_trans by auto
    with True xy Cons.prems(3) show ?thesis by simp
  next
    case False
    then have "\<not> date_ge (date x) (date y)"
      using date_ge_compareDates [of x y] Cons.prems by simp
    then have yx: "date_ge (date y) (date x)"
      using date_ge_total [of "date x" "date y"] Cons.prems by auto
    have "sorted_wrt (\<lambda>a b. date_ge (date a) (date b)) (insert_by compareDates x ys)"
      using Cons.IH Cons.prems by simp
    with False yx Cons.prems(3) show ?thesis
      by (auto simp: set_insert_by)
  qed
qed

lemma sorted_js_sort:
  assumes "\<forall>e\<in>set es. date e \<noteq> InvalidDate"
  shows "sorted_wrt (\<lambda>a b. date_ge (date a) (date b)) (js_sort compareDates es)"
  using assms
proof (induction es)
  case Nil
  show ?case by simp
next
  case (Cons e es)
  then show ?case by (simp add: sorted_insert_by set_js_sort)
qed

text \<open>
  The sort is stable: the entries of one date keep their order, whatever the dates are.
\<close>

lemma filter_insert_by_same:
  "filter (\<lambda>e. date e = date x) (insert_by compareDates x ys) =
     x # filter (\<lambda>e. date e = date x) ys"
proof (induction ys)
  case Nil
  show ?case by simp
next
  case (Cons y ys)
  show ?case
  proof (cases "compareDates x y \<le> 0")
    case True
    then show ?thesis by simp
  next
    case False
    then have "date y \<noteq> date x"
      by (cases "date x"; cases "date y") (auto simp: compareDates_def)
    with False Cons show ?thesis by simp
  qed
qed

lemma filter_insert_by_other:
  "\<not> P x \<Longrightarrow> filter P (insert_by cmp x ys) = filter P ys"
  by (induction ys) auto

lemma js_sort_stable:
  "filter (\<lambda>e. date e = d) (js_sort compareDates es) = filter (\<lambda>e. date e = d) es"
proof (induction es)
  case Nil
  show ?case by simp
next
  case (Cons e es)
  show ?case
  proof (cases "date e = d")
    case True
    with Cons filter_insert_by_same [of e "js_sort compareDates es"] show ?thesis by auto
  next
    case False
    with Cons show ?thesis by (simp add: filter_insert_by_other)
  qed
qed

lemma filter_processed_entries:
  assumes "length gs = length (markdown_files files)"
  shows "map slug (filter (\<lambda>e. date e = d) (processed_entries files gs)) =
         map (\<lambda>fp. basename (fst fp) ''.md'')
           (filter (\<lambda>fp. a_date (snd fp) = d) (markdown_files files))"
proof -
  have "\<And>gs. length gs = length fps \<Longrightarrow>
      map slug (filter (\<lambda>e. date e = d)
        (map (\<lambda>p. with_media (fst p) (snd p)) (zip (map parseEntry fps) gs))) =
      map (\<lambda>fp. basename (fst fp) ''.md'') (filter (\<lambda>fp. a_date (snd fp) = d) fps)"
    for fps :: "(string \<times> source_post) list"
  proof (induction fps)
    case Nil
    show ?case by simp
  next
    case (Cons fp fps)
    then show ?case
      by (cases gs) (auto simp: with_media_fields parseEntry_fields)
  qed
  from this [OF assms] show ?thesis by (simp add: processed_entries_def)
qed

lemma rendered_fields:
  "c_date (portfolioItem e) = date e" "c_slug (portfolioItem e) = slug e"
  "pp_date (writePost e t) = date e" "pp_file (writePost e t) = slug e @ ''.html''"
  "r_pubDate (rssItem e) = date e" "r_link (rssItem e) = site_url @ ''/posts/'' @ slug e"
  by (simp_all add: portfolioItem_def writePost_def rssItem_def Let_def)

section \<open>Further facts about the examples and the media steps\<close>

lemma strip_tags_replicate:
  "a \<noteq> CHR ''<'' \<Longrightarrow> strip_tags (replicate n a @ s) = replicate n a @ strip_tags s"
  by (induction n) simp_all

lemma long_entry:
  "content (parseEntry (''long.md'', long_post)) = replicate 198 CHR ''a'' @ ''<b>x</b>''"
  "description (parseEntry (''long.md'', long_post)) = None"
  by (simp_all add: parseEntry_def long_post_def)

lemma long_entry_slice_then_strip:
  "strip_tags (take 200 (content (parseEntry (''long.md'', long_post)))) =
     replicate 198 CHR ''a'' @ ''<b''"
  by (simp add: long_entry strip_tags_replicate)

lemma long_entry_strip_then_slice:
  "take 200 (strip_tags (content (parseEntry (''long.md'', long_post)))) =
     replicate 198 CHR ''a'' @ ''x''"
  by (simp add: long_entry strip_tags_replicate)

lemma slugs_of_metas:
  assumes "map_throw metadata_of es = Inr metas"
  shows "map m_slug metas = map slug es"
proof -
  have m: "map metadata_of es = map Inr metas"
    using map_throw_Inr [OF assms] .
  then have len: "length metas = length es" by (metis length_map)
  show ?thesis
  proof (rule nth_equalityI)
    show "length (map m_slug metas) = length (map slug es)" using len by simp
  next
    fix i assume "i < length (map m_slug metas)"
    then have i: "i < length metas" by simp
    with len m have "metadata_of (es ! i) = Inr (metas ! i)" by (metis nth_map)
    from metadata_of_slug [OF this] i len
    show "map m_slug metas ! i = map slug es ! i" by simp
  qed
qed



lemma cmds_ran: "cmds (ran k w) = cmds w @ [k]"
  by (cases k) (simp_all add: ran_def write_file_def)

lemma generateWaveformImage_success:
  assumes ok: "waveform_steps_ok h a out c w"
    and img: "endsWith out ''.jpg'' \<or> endsWith out ''.png''"
  shows "cmds (snd (generateWaveformImage h a out c w)) =
           cmds w @
           [Probe c,
            ExtractAudio a (replace_image_ext out ''-temp.mp3''),
            RenderWaveform (replace_image_ext out ''-temp.mp3'')
              (or_default (nth_dim (probe_dims h
                 (w\<lparr>dirs := insert (path_dirname h out) (dirs w)\<rparr>) c) 0) 1200)
              (or_default (nth_dim (probe_dims h
                 (w\<lparr>dirs := insert (path_dirname h out) (dirs w)\<rparr>) c) 1) 630)
              (replace_image_ext out ''-waveform-temp.png''),
            Composite c (replace_image_ext out ''-waveform-temp.png'') out]"
    and "mtime (snd (generateWaveformImage h a out c w)) out \<noteq> None"
    and "mtime (snd (generateWaveformImage h a out c w)) (replace_image_ext out ''-temp.mp3'') = None"
    and "mtime (snd (generateWaveformImage h a out c w))
           (replace_image_ext out ''-waveform-temp.png'') = None"
proof -
  from img obtain stem ext where out: "out = stem @ ext" and ext: "ext = ''.jpg'' \<or> ext = ''.png''"
    by (rule image_ext_split)
  have t: "replace_image_ext out r = stem @ r" for r
    unfolding out using ext by (rule replace_image_ext_match)
  have ne: "stem @ ''-waveform-temp.png'' \<noteq> out" "stem @ ''-temp.mp3'' \<noteq> out"
    "stem @ ''-waveform-temp.png'' \<noteq> stem @ ''-temp.mp3''"
    using ext by (auto simp: out)
  show "cmds (snd (generateWaveformImage h a out c w)) =
           cmds w @
           [Probe c,
            ExtractAudio a (replace_image_ext out ''-temp.mp3''),
            RenderWaveform (replace_image_ext out ''-temp.mp3'')
              (or_default (nth_dim (probe_dims h
                 (w\<lparr>dirs := insert (path_dirname h out) (dirs w)\<rparr>) c) 0) 1200)
              (or_default (nth_dim (probe_dims h
                 (w\<lparr>dirs := insert (path_dirname h out) (dirs w)\<rparr>) c) 1) 630)
              (replace_image_ext out ''-waveform-temp.png''),
            Composite c (replace_image_ext out ''-waveform-temp.png'') out]"
    using ok ne
    by (simp add: generateWaveformImage_def waveform_body_def waveform_steps_ok_def t
        tryCatch_def andThen_def mkdir_def execAsync_eq unlink_def mtime_ran cmds_ran
        ret_def Let_def)
  show "mtime (snd (generateWaveformImage h a out c w)) out \<noteq> None"
    using ok ne
    by (simp add: generateWaveformImage_def waveform_body_def waveform_steps_ok_def t
        tryCatch_def andThen_def mkdir_def execAsync_eq unlink_def mtime_ran cmds_ran
        ret_def Let_def)
  show "mtime (snd (generateWaveformImage h a out c w)) (replace_image_ext out ''-temp.mp3'') = None"
    using ok ne
    by (simp add: generateWaveformImage_def waveform_body_def waveform_steps_ok_def t
        tryCatch_def andThen_def mkdir_def execAsync_eq unlink_def mtime_ran cmds_ran
        ret_def Let_def)
  show "mtime (snd (generateWaveformImage h a out c w))
           (replace_image_ext out ''-waveform-temp.png'') = None"
    using ok ne
    by (simp add: generateWaveformImage_def waveform_body_def waveform_steps_ok_def t
        tryCatch_def andThen_def mkdir_def execAsync_eq unlink_def mtime_ran cmds_ran
        ret_def Let_def)
qed

lemma generateWaveformImage_step_fails:
  assumes "\<not> mkdir_ok h w (path_dirname h out) \<or>
     \<not> exec_ok h (w\<lparr>dirs := insert (path_dirname h out) (dirs w)\<rparr>) (Probe c) \<or>
     \<not> exec_ok h (ran (Probe c) (w\<lparr>dirs := insert (path_dirname h out) (dirs w)\<rparr>))
         (ExtractAudio a (replace_image_ext out ''-temp.mp3'')) \<or>
     \<not> exec_ok h (ran (ExtractAudio a (replace_image_ext out ''-temp.mp3''))
                   (ran (Probe c) (w\<lparr>dirs := insert (path_dirname h out) (dirs w)\<rparr>)))
         (RenderWaveform (replace_image_ext out ''-temp.mp3'')
            (or_default (nth_dim (probe_dims h
               (w\<lparr>dirs := insert (path_dirname h out) (dirs w)\<rparr>) c) 0) 1200)
            (or_default (nth_dim (probe_dims h
               (w\<lparr>dirs := insert (path_dirname h out) (dirs w)\<rparr>) c) 1) 630)
            (replace_image_ext out ''-waveform-temp.png'')) \<or>
     \<not> exec_ok h (ran (RenderWaveform (replace_image_ext out ''-temp.mp3'')
            (or_default (nth_dim (probe_dims h
               (w\<lparr>dirs := insert (path_dirname h out) (dirs w)\<rparr>) c) 0) 1200)
            (or_default (nth_dim (probe_dims h
               (w\<lparr>dirs := insert (path_dirname h out) (dirs w)\<rparr>) c) 1) 630)
            (replace_image_ext out ''-waveform-temp.png''))
                   (ran (ExtractAudio a (replace_image_ext out ''-temp.mp3''))
                   (ran (Probe c) (w\<lparr>dirs := insert (path_dirname h out) (dirs w)\<rparr>))))
         (Composite c (replace_image_ext out ''-waveform-temp.png'') out)"
  shows "fst (generateWaveformImage h a out c w) = Inr None"
proof -
  from assms have "\<not> waveform_steps_ok h a out c w"
    unfolding waveform_steps_ok_def Let_def by blast
  then show ?thesis by (simp add: generateWaveformImage_exact)
qed

lemma mediaStep_exact:
  assumes el: "eligible e" and ms: "musicSource e = Some ms"
  shows "\<exists>w1 w'.
      generateWaveformImage h (path_join h OUTPUT_DIR ms)
          (replace_audio_ext (path_join h OUTPUT_DIR ms) ''-waveform.jpg'') (cover_of h e) w =
        (Inr (if waveform_steps_ok h (path_join h OUTPUT_DIR ms)
                   (replace_audio_ext (path_join h OUTPUT_DIR ms) ''-waveform.jpg'')
                   (cover_of h e) w \<and>
                 (endsWith (replace_audio_ext (path_join h OUTPUT_DIR ms) ''-waveform.jpg'') ''.jpg'' \<or>
                  endsWith (replace_audio_ext (path_join h OUTPUT_DIR ms) ''-waveform.jpg'') ''.png'')
              then Some (replace_audio_ext (path_join h OUTPUT_DIR ms) ''-waveform.jpg'')
              else None), w1) \<and>
      generateVideoFromAudio h (path_join h OUTPUT_DIR ms)
          (replace_audio_ext (path_join h OUTPUT_DIR ms) ''.mp4'')
          (if waveform_steps_ok h (path_join h OUTPUT_DIR ms)
                   (replace_audio_ext (path_join h OUTPUT_DIR ms) ''-waveform.jpg'')
                   (cover_of h e) w \<and>
                 (endsWith (replace_audio_ext (path_join h OUTPUT_DIR ms) ''-waveform.jpg'') ''.jpg'' \<or>
                  endsWith (replace_audio_ext (path_join h OUTPUT_DIR ms) ''-waveform.jpg'') ''.png'')
           then replace_audio_ext (path_join h OUTPUT_DIR ms) ''-waveform.jpg''
           else cover_of h e) w1 = (Inr (), w') \<and>
      mediaStep h e w =
        (Inr (e\<lparr> videoSource := JStr (replace_audio_ext ms ''.mp4''),
                 waveformImage :=
                   (if waveform_steps_ok h (path_join h OUTPUT_DIR ms)
                         (replace_audio_ext (path_join h OUTPUT_DIR ms) ''-waveform.jpg'')
                         (cover_of h e) w \<and>
                       (endsWith (replace_audio_ext (path_join h OUTPUT_DIR ms) ''-waveform.jpg'') ''.jpg'' \<or>
                        endsWith (replace_audio_ext (path_join h OUTPUT_DIR ms) ''-waveform.jpg'') ''.png'')
                    then JStr (replace_audio_ext ms ''-waveform.jpg'')
                    else JNull) \<rparr>), w')"
proof -
  define a where "a = path_join h OUTPUT_DIR ms"
  define img where "img = replace_audio_ext a ''-waveform.jpg''"
  define ok where "ok \<longleftrightarrow> waveform_steps_ok h a img (cover_of h e) w \<and>
                 (endsWith img ''.jpg'' \<or> endsWith img ''.png'')"
  define g where "g = (if ok then Some img else None)"
  obtain r w1 where p: "generateWaveformImage h a img (cover_of h e) w = (r, w1)"
    by (cases "generateWaveformImage h a img (cover_of h e) w")
  from generateWaveformImage_exact [of h a img "cover_of h e" w] p
  have r: "r = Inr g" by (simp add: g_def ok_def)
  have gw: "generateWaveformImage h a img (cover_of h e) w = (Inr g, w1)"
    using p r by simp
  have tg: "truthy g = ok"
    by (auto simp: g_def truthy_def ok_def endsWith_def)
  have sg: "ok \<Longrightarrow> str_of_opt g = img"
    by (simp add: g_def str_of_opt_def)
  obtain w' where v: "generateVideoFromAudio h a (replace_audio_ext a ''.mp4'')
       (if ok then img else cover_of h e) w1 = (Inr (), w')"
    using generateVideoFromAudio_total by blast
  have img': "(if truthy g then str_of_opt g else cover_of h e) =
      (if ok then img else cover_of h e)"
    using sg by (simp add: tg)
  have step: "mediaStep h e w = (Inr (with_media e g), w')"
    using mediaStep_eligible [OF el ms gw [unfolded a_def img_def]]
    unfolding a_def [symmetric] img_def [symmetric] img' v snd_conv .
  have wm: "with_media e g = e\<lparr> videoSource := JStr (replace_audio_ext ms ''.mp4''),
                 waveformImage := (if ok then JStr (replace_audio_ext ms ''-waveform.jpg'')
                    else JNull) \<rparr>"
    using el by (simp add: with_media_def ms str_of_opt_def tg)
  from gw v step wm show ?thesis
    unfolding g_def ok_def img_def a_def by (intro exI [of _ w1] exI [of _ w'] conjI) simp_all
qed

lemma processMedia_total:
  "\<exists>es' w'. processMedia h es w = (Inr es', w') \<and> length es' = length es"
proof -
  from processMedia_result [of es h w] obtain gs w' where
    "length gs = length es"
    "processMedia h es w = (Inr (map (\<lambda>p. with_media (fst p) (snd p)) (zip es gs)), w')"
    by blast
  then show ?thesis by (intro exI [of _ "map (\<lambda>p. with_media (fst p) (snd p)) (zip es gs)"] exI [of _ w']) simp
qed



text \<open>
  Without a \<open>musicSource\<close> (absent or empty) an entry gets no player, no enclosure and
  no iTunes tags.
\<close>

lemma no_audio_without_musicSource:
  assumes "\<not> truthy (musicSource e)"
  shows "generateAudioPlayer e = NoPlayer \<and>
         c_audio (portfolioItem e) = NoPlayer \<and>
         pp_audio (writePost e t) = NoPlayer \<and>
         r_enclosure (rssItem e) = None \<and>
         r_itunes_author (rssItem e) = None"
  using assms
  by (simp add: generateAudioPlayer_def portfolioItem_def writePost_def rssItem_def Let_def)

section \<open>The claims\<close>

text \<open>
  C10. The audio player of the home page and of the post page, the \<open><enclosure>\<close> of the
  feed item and its iTunes tags are emitted for every entry whose \<open>musicSource\<close> is
  present, whatever its tags: an entry with a \<open>musicSource\<close> and without the \<open>music\<close>
  tag still gets them, while it is not eligible for derived media (the media step leaves
  it and the world as they are) and its Open-Graph type is \<open>article\<close>.
\<close>

theorem audio_player_and_enclosure_gate:
  assumes "musicSource e = Some ms" and "ms \<noteq> []"
  shows "generateAudioPlayer e = AudioPlayer ms \<and>
         c_audio (portfolioItem e) = AudioPlayer ms \<and>
         pp_audio (writePost e t) = AudioPlayer ms \<and>
         r_enclosure (rssItem e) = Some (site_url @ ms) \<and>
         r_itunes_author (rssItem e) = Some site_author \<and>
         (''music'' \<notin> set (tags e) \<longrightarrow>
            \<not> eligible e \<and> mediaStep h e w = (Inr e, w) \<and>
            Property ''og:type'' ''article'' \<in> set (generateOpenGraphTags e) \<and>
            Property ''og:type'' ''video.other'' \<notin> set (generateOpenGraphTags e))"
  using assms
  by (simp add: generateAudioPlayer_def portfolioItem_def writePost_def rssItem_def
      truthy_def str_of_opt_def Let_def eligible_def mediaStep_def ret_def
      generateOpenGraphTags_def)

theorem audio_player_and_enclosure_gate_witness:
  "musicSource (parseEntry (''talk.md'', talk_post)) = Some ''/audio/talk.mp3'' \<and>
   ''/audio/talk.mp3'' \<noteq> [] \<and>
   ''music'' \<notin> set (tags (parseEntry (''talk.md'', talk_post))) \<and>
   c_audio (portfolioItem (parseEntry (''talk.md'', talk_post))) = AudioPlayer ''/audio/talk.mp3'' \<and>
   r_enclosure (rssItem (parseEntry (''talk.md'', talk_post))) =
     Some ''https://words.aubrey.page/audio/talk.mp3'' \<and>
   mediaStep host_ok (parseEntry (''talk.md'', talk_post)) world0 =
     (Inr (parseEntry (''talk.md'', talk_post)), world0)"
  using audio_player_and_enclosure_gate [of "parseEntry (''talk.md'', talk_post)" "''/audio/talk.mp3''" "[]" host_ok world0]
  by (simp add: parseEntry_def talk_post_def or_null_def truthy_def site_url_def)

text \<open>
  C3. Video generation skips an up-to-date output: when the output video exists and its
  last-modified time is newer than the audio file's, an invocation of the video step
  returns without regenerating. No file's modification time changes, and the only
  command run is the availability check \<open>ffmpeg -version\<close>: no encoder invocation occurs.
\<close>

theorem up_to_date_video_is_skipped:
  assumes "mtime w audioPath = Some ta" and "mtime w outputVideoPath = Some tv" and "tv > ta"
  shows "\<exists>w'. generateVideoFromAudio h audioPath outputVideoPath cover w = (Inr (), w') \<and>
           mtime w' = mtime w \<and> now w' = now w \<and> cmds w' = cmds w @ [FfmpegVersion]"
  using generateVideoFromAudio_up_to_date [OF assms, of h cover] by simp

theorem up_to_date_video_is_skipped_witness:
  "mtime world_with_video ''docs/music/a.mp3'' = Some 100 \<and>
   mtime world_with_video ''docs/music/a.mp4'' = Some 200 \<and> (200::int) > 100 \<and>
   (\<exists>w'. generateVideoFromAudio host_ok ''docs/music/a.mp3'' ''docs/music/a.mp4''
            AUDIO_COVER_IMAGE world_with_video = (Inr (), w') \<and>
         mtime w' ''docs/music/a.mp4'' = Some 200 \<and> cmds w' = [FfmpegVersion])"
proof -
  have a: "mtime world_with_video ''docs/music/a.mp3'' = Some 100"
    by (simp add: world_with_video_def world0_def)
  have v: "mtime world_with_video ''docs/music/a.mp4'' = Some 200"
    by (simp add: world_with_video_def world0_def)
  have c: "cmds world_with_video = []"
    by (simp add: world_with_video_def world0_def)
  from up_to_date_video_is_skipped [OF a v, of host_ok AUDIO_COVER_IMAGE] a v c
  show ?thesis by auto
qed

text \<open>
  C1. The claim: \<open>videoSource\<close> and \<open>waveformImage\<close> of an eligible entry are populated
  only after the corresponding generation step succeeded; after a failed video generation
  the entry's \<open>videoSource\<close> is unset. The code at an eligible entry on a host without
  the media tool: the waveform step fails and \<open>waveformImage\<close> is \<open>null\<close>, the video
  step fails at \<open>ffmpeg -version\<close> (no encode command is run, no video file exists
  afterwards), and \<open>videoSource\<close> is set to \<open>/music/a.mp4\<close> all the same.
\<close>

theorem videoSource_set_after_failed_video_generation:
  "fst (mediaStep host_no_ffmpeg (parseEntry (''song.md'', song_post)) world0) =
     Inr ((parseEntry (''song.md'', song_post))
            \<lparr> videoSource := JStr ''/music/a.mp4'', waveformImage := JNull \<rparr>) \<and>
   cmds (snd (mediaStep host_no_ffmpeg (parseEntry (''song.md'', song_post)) world0)) =
     [Probe ''./audio-cover.jpg'', FfmpegVersion] \<and>
   mtime (snd (mediaStep host_no_ffmpeg (parseEntry (''song.md'', song_post)) world0))
     ''docs/music/a.mp4'' = None"
  by (simp add: mediaStep_song_without_tool world0_def)

text \<open>
  C4. The claim: an entry emits the Open-Graph type \<open>video.other\<close> (with \<open>og:video\<close>
  and \<open>og:audio\<close>) when its tags contain \<open>music\<close>, its \<open>musicSource\<close> is present and
  its video was successfully generated, and \<open>article\<close> otherwise. The code on a music
  post whose video generation failed (a host without the media tool): the post page
  carries \<open>og:type video.other\<close> and an \<open>og:video\<close> URL of a file that does not exist,
  and no \<open>og:type article\<close>.
\<close>

theorem og_type_after_failed_video_generation:
  "\<exists>site page.
     fst (generateSite host_no_ffmpeg [(''song.md'', song_post)] world0) = Inr site \<and>
     post_pages site = [page] \<and> pp_file page = ''song.html'' \<and>
     Property ''og:type'' ''video.other'' \<in> set (pp_og page) \<and>
     Property ''og:video'' ''https://words.aubrey.page/music/a.mp4'' \<in> set (pp_og page) \<and>
     Property ''og:type'' ''article'' \<notin> set (pp_og page) \<and>
     mtime (snd (generateSite host_no_ffmpeg [(''song.md'', song_post)] world0))
       ''docs/music/a.mp4'' = None"
proof -
  from og_build_song_without_tool obtain w' where
    run: "generateSite host_no_ffmpeg [(''song.md'', song_post)] world0 =
     (Inr \<lparr> posts_json = map stringify_record
              [\<lparr> m_title = JStr ''Song'', m_date = 1704067200000, m_tags = [''music''],
                 m_slug = ''song'', m_description = [], m_musicSource = Some ''/music/a.mp3'',
                 m_videoSource = JStr ''/music/a.mp4'', m_waveformImage = JNull \<rparr>],
             post_pages = map (\<lambda>e. writePost e (tagsHTML e))
               [(parseEntry (''song.md'', song_post))
                  \<lparr> videoSource := JStr ''/music/a.mp4'', waveformImage := JNull \<rparr>],
             index_cards = map portfolioItem
               [(parseEntry (''song.md'', song_post))
                  \<lparr> videoSource := JStr ''/music/a.mp4'', waveformImage := JNull \<rparr>],
             rss_items = generateRSSFeed
               [(parseEntry (''song.md'', song_post))
                  \<lparr> videoSource := JStr ''/music/a.mp4'', waveformImage := JNull \<rparr>] \<rparr>, w')"
    and mt: "mtime w' = mtime world0"
    by blast
  have slug: "slug (parseEntry (''song.md'', song_post)) = ''song''"
    by (simp add: song_entry)
  show ?thesis
    unfolding run
    by (simp add: mt writePost_def og_song_without_tool slug world0_def)
qed

text \<open>
  C9. The claim: for a post whose date does not parse, the entry's date is the invalid
  time sentinel, which sorts by the host's comparison semantics, and the build still
  completes all its output-writing steps. The first part holds; the second does not: the
  build of a directory with one undated post ends with a \<open>RangeError\<close> and no output.
\<close>

theorem unparseable_date_counterexample:
  "fst (generateSite host_ok [(''undated.md'', undated_post)] world0) = Inl RangeError"
proof -
  have md: "markdown_files [(''undated.md'', undated_post)] = [(''undated.md'', undated_post)]"
    by (simp add: markdown_files_def endsWith_def)
  have dir: "mkdir_ok host_ok world0 OUTPUT_DIR" by (simp add: host_ok_def)
  have plain: "\<forall>fp\<in>set (markdown_files [(''undated.md'', undated_post)]).
      \<not> eligible (parseEntry fp)"
    by (simp add: md undated_entry eligible_def truthy_def)
  show ?thesis
    by (simp add: generateSite_plain [OF dir plain] md undated_entry metadata_of_def
        toISOString_def)
qed

text \<open>
  C9, as the code has it: for a markdown post whose date does not parse, the entry's date
  is the Invalid Date; the sort comparator is 0 (NaN, taken as \<open>+0\<close>) against every other
  entry; and the build does not reach its outputs: it ends with an error, which is the
  \<open>RangeError\<close> of \<open>toISOString\<close> (thrown while the manifest records are built, before
  \<open>posts.json\<close>, the pages and the feed are written) whenever the output directory
  could be made.
\<close>

theorem unparseable_date_aborts_build:
  assumes "fp \<in> set files" and "endsWith (fst fp) ''.md''" and "a_date (snd fp) = InvalidDate"
  shows "date (parseEntry fp) = InvalidDate \<and>
         (\<forall>e. compareDates (parseEntry fp) e = 0 \<and> compareDates e (parseEntry fp) = 0) \<and>
         (\<exists>err w'. generateSite h files w = (Inl err, w') \<and> disk w' = disk w \<and>
            (mkdir_ok h w OUTPUT_DIR \<longrightarrow> err = RangeError))"
proof (intro conjI)
  show d: "date (parseEntry fp) = InvalidDate"
    using assms(3) by (simp add: parseEntry_fields)
  show "\<forall>e. compareDates (parseEntry fp) e = 0 \<and> compareDates e (parseEntry fp) = 0"
    using compareDates_invalid [OF d] by simp
  show "\<exists>err w'. generateSite h files w = (Inl err, w') \<and> disk w' = disk w \<and>
            (mkdir_ok h w OUTPUT_DIR \<longrightarrow> err = RangeError)"
  proof (cases "mkdir_ok h w OUTPUT_DIR")
    case False
    then show ?thesis by (simp add: generateSite_no_output_dir)
  next
    case True
    from generateSite_unfold [OF True, of files] obtain gs w1 where
      len: "length gs = length (markdown_files files)" and
      dk: "disk w1 = disk w" and
      eq: "generateSite h files w =
       (case map_throw metadata_of (sorted_entries files gs) of
          Inl err \<Rightarrow> (Inl err, w1)
        | Inr metas \<Rightarrow> writeOutputs h (sorted_entries files gs) metas w1)"
      by blast
    have "fp \<in> set (markdown_files files)"
      using assms by (simp add: markdown_files_def)
    then have "InvalidDate \<in> date ` set (sorted_entries files gs)"
      using dates_of_sorted_entries [OF len] assms(3) by force
    then obtain e where e: "e \<in> set (sorted_entries files gs)" "date e = InvalidDate"
      by auto
    then have "metadata_of e = Inl RangeError"
      by (simp add: metadata_of_def toISOString_def)
    with e(1) map_throw_fails [of e "sorted_entries files gs" metadata_of RangeError]
    obtain err where
      err: "map_throw metadata_of (sorted_entries files gs) = Inl err" by blast
    from map_throw_Inl [OF err] metadata_of_Inl have "err = RangeError" by blast
    with err eq dk show ?thesis by simp
  qed
qed

theorem unparseable_date_aborts_build_witness:
  "(''undated.md'', undated_post) \<in> set ((''undated.md'', undated_post) # example_files) \<and>
   endsWith ''undated.md'' ''.md'' \<and> a_date undated_post = InvalidDate \<and>
   mkdir_ok host_ok world0 OUTPUT_DIR \<and>
   date (parseEntry (''undated.md'', undated_post)) = InvalidDate \<and>
   (\<exists>w'. generateSite host_ok ((''undated.md'', undated_post) # example_files) world0 =
      (Inl RangeError, w') \<and> disk w' = [])"
proof -
  have md: "endsWith (fst (''undated.md'', undated_post)) ''.md''" by (simp add: endsWith_def)
  have dir: "mkdir_ok host_ok world0 OUTPUT_DIR" by (simp add: host_ok_def)
  have d: "a_date (snd (''undated.md'', undated_post)) = InvalidDate"
    by (simp add: undated_post_def)
  have m: "(''undated.md'', undated_post) \<in> set ((''undated.md'', undated_post) # example_files)"
    by simp
  have k: "disk world0 = []" by (simp add: world0_def)
  from unparseable_date_aborts_build [OF m md d, of host_ok world0] md dir d k
  show ?thesis by auto
qed

text \<open>
  C2. The claim: for any two entries A and B, A appears before B in the home page, in the
  rendering order and in the feed if and only if \<open>A.date >= B.date\<close>. Two posts of the
  same day refute the "if": the diary post comes first and the notes post second, so the
  notes post has \<open>date >= \<close> the diary post's and still does not appear before it.
\<close>

theorem order_iff_date_counterexample:
  "\<not> isl (fst (generateSite host_ok same_day_files world0)) \<and>
   map c_slug (index_cards (projr (fst (generateSite host_ok same_day_files world0)))) =
     [''diary'', ''notes''] \<and>
   map c_date (index_cards (projr (fst (generateSite host_ok same_day_files world0)))) =
     [DateMs 1704067200000, DateMs 1704067200000] \<and>
   date_ge (DateMs 1704067200000) (DateMs 1704067200000) \<and>
   \<not> appears_before ''notes'' ''diary''
       (map c_slug (index_cards (projr (fst (generateSite host_ok same_day_files world0)))))"
  using same_day_build by (auto simp: date_ge_def appears_before_def)

text \<open>
  C2, as the code has it: on every run that produces its outputs, the home-page cards,
  the post pages and the feed items are in descending order of date (if A appears before
  B then \<open>A.date >= B.date\<close>, hence an entry with a strictly later date comes first);
  the post pages follow the order of the cards; entries of the same date keep the order
  of the directory listing; and the feed has at most 20 items, those of the first 20
  cards, the most recent by that order.
\<close>

theorem outputs_sorted_by_date_descending:
  assumes run: "generateSite h files w = (Inr out, w')"
  shows "sorted_wrt (\<lambda>a b. date_ge (c_date a) (c_date b)) (index_cards out) \<and>
         sorted_wrt (\<lambda>a b. date_ge (pp_date a) (pp_date b)) (post_pages out) \<and>
         sorted_wrt (\<lambda>a b. date_ge (r_pubDate a) (r_pubDate b)) (rss_items out) \<and>
         map pp_file (post_pages out) = map (\<lambda>c. c_slug c @ ''.html'') (index_cards out) \<and>
         length (rss_items out) \<le> 20 \<and>
         map r_link (rss_items out) =
           take 20 (map (\<lambda>c. site_url @ ''/posts/'' @ c_slug c) (index_cards out)) \<and>
         (\<forall>d. map c_slug (filter (\<lambda>c. c_date c = d) (index_cards out)) =
               map (\<lambda>fp. basename (fst fp) ''.md'')
                 (filter (\<lambda>fp. a_date (snd fp) = d) (markdown_files files)))"
proof -
  from generateSite_Inr [OF run] obtain gs metas where
    len: "length gs = length (markdown_files files)" and
    metas: "map_throw metadata_of (sorted_entries files gs) = Inr metas" and
    out: "post_pages out = map (\<lambda>e. writePost e (tagsHTML e)) (sorted_entries files gs)"
         "index_cards out = map portfolioItem (sorted_entries files gs)"
         "rss_items out = generateRSSFeed (sorted_entries files gs)"
    by auto
  define es where "es = sorted_entries files gs"
  have "map metadata_of es = map Inr metas"
    unfolding es_def using map_throw_Inr [OF metas] .
  then have "\<forall>e\<in>set es. \<exists>m. metadata_of e = Inr m"
    by (metis (no_types, lifting) imageE image_eqI list.set_map)
  then have valid: "\<forall>e\<in>set es. date e \<noteq> InvalidDate"
    using metadata_of_Inr_iff by blast
  then have "\<forall>e\<in>set (processed_entries files gs). date e \<noteq> InvalidDate"
    by (simp add: es_def sorted_entries_def set_js_sort)
  from sorted_js_sort [OF this]
  have sorted: "sorted_wrt (\<lambda>a b. date_ge (date a) (date b)) es"
    by (simp add: es_def sorted_entries_def)
  have s1: "sorted_wrt (\<lambda>a b. date_ge (c_date a) (c_date b)) (index_cards out)"
    using sorted by (simp add: out sorted_wrt_map rendered_fields flip: es_def)
  have s2: "sorted_wrt (\<lambda>a b. date_ge (pp_date a) (pp_date b)) (post_pages out)"
    using sorted by (simp add: out sorted_wrt_map rendered_fields flip: es_def)
  have "sorted_wrt (\<lambda>a b. date_ge (date a) (date b)) (take 20 es)"
    using sorted by (rule sorted_wrt_take)
  then have s3: "sorted_wrt (\<lambda>a b. date_ge (r_pubDate a) (r_pubDate b)) (rss_items out)"
    by (simp add: out generateRSSFeed_def sorted_wrt_map rendered_fields flip: es_def)
  have f: "map pp_file (post_pages out) = map (\<lambda>c. c_slug c @ ''.html'') (index_cards out)"
    by (simp add: out rendered_fields comp_def)
  have l: "length (rss_items out) \<le> 20"
    by (simp add: out generateRSSFeed_def)
  have k: "map r_link (rss_items out) =
           take 20 (map (\<lambda>c. site_url @ ''/posts/'' @ c_slug c) (index_cards out))"
    by (simp add: out generateRSSFeed_def rendered_fields comp_def take_map)
  have st: "map c_slug (filter (\<lambda>c. c_date c = d) (index_cards out)) =
               map (\<lambda>fp. basename (fst fp) ''.md'')
                 (filter (\<lambda>fp. a_date (snd fp) = d) (markdown_files files))" for d
  proof -
    have "map c_slug (filter (\<lambda>c. c_date c = d) (index_cards out)) =
          map slug (filter (\<lambda>e. date e = d) (sorted_entries files gs))"
      by (simp add: out filter_map comp_def rendered_fields)
    also have "\<dots> = map slug (filter (\<lambda>e. date e = d) (processed_entries files gs))"
      by (simp add: sorted_entries_def js_sort_stable)
    also have "\<dots> = map (\<lambda>fp. basename (fst fp) ''.md'')
                 (filter (\<lambda>fp. a_date (snd fp) = d) (markdown_files files))"
      by (rule filter_processed_entries [OF len])
    finally show ?thesis .
  qed
  from s1 s2 s3 f l k st show ?thesis by blast
qed

theorem outputs_sorted_by_date_descending_witness:
  "\<exists>out w'. generateSite host_ok same_day_files world0 = (Inr out, w') \<and>
      sorted_wrt (\<lambda>a b. date_ge (c_date a) (c_date b)) (index_cards out) \<and>
      length (rss_items out) \<le> 20 \<and>
      map c_slug (filter (\<lambda>c. c_date c = DateMs 1704067200000) (index_cards out)) =
        [''diary'', ''notes'']"
proof -
  from same_day_build obtain site w1 where
    run: "generateSite host_ok same_day_files world0 = (Inr site, w1)"
    by blast
  have md: "markdown_files same_day_files = [(''diary.md'', diary_post), (''notes.md'', diary_post)]"
    by (simp add: markdown_files_def same_day_files_def endsWith_def)
  have d: "a_date diary_post = DateMs 1704067200000"
    by (simp add: diary_post_def)
  from outputs_sorted_by_date_descending [OF run]
  have "sorted_wrt (\<lambda>a b. date_ge (c_date a) (c_date b)) (index_cards site) \<and>
      length (rss_items site) \<le> 20 \<and>
      map c_slug (filter (\<lambda>c. c_date c = DateMs 1704067200000) (index_cards site)) =
        [''diary'', ''notes'']"
    by (simp add: md d basename_def endsWith_def)
  with run show ?thesis
    by (intro exI [of _ site] exI [of _ w1]) simp
qed

text \<open>
  C5. The claim: for an entry without a description, the description of the feed item is
  the first 200 characters of the stripped-tag content, followed by the ellipsis marker.
  A post whose content is 198 letters followed by \<open><b>x</b>\<close> refutes it: stripping
  first and slicing then gives the letters and \<open>x\<close>, while the feed item has the letters
  and \<open><b\<close>, the head of the tag that the slice has cut.
\<close>

theorem feed_description_counterexample:
  "r_description (rssItem (parseEntry (''long.md'', long_post))) =
     replicate 198 CHR ''a'' @ ''<b...'' \<and>
   take 200 (strip_tags (content (parseEntry (''long.md'', long_post)))) @ ''...'' =
     replicate 198 CHR ''a'' @ ''x...'' \<and>
   r_description (rssItem (parseEntry (''long.md'', long_post))) \<noteq>
     take 200 (strip_tags (content (parseEntry (''long.md'', long_post)))) @ ''...''"
  by (simp add: rssItem_def Let_def truthy_def long_entry(2)
      long_entry_slice_then_strip long_entry_strip_then_slice)

text \<open>
  C5, as the code has it: for every entry whose description metadata is absent, the
  description of its feed item is the first 200 characters of the entry's rendered HTML
  content, with the tags then stripped from that slice (the slice comes first, so a tag
  that it cuts stays in), followed by the ellipsis marker \<open>...\<close>. (The items of the feed
  are those of the first 20 entries.)
\<close>

theorem feed_description_of_undescribed_entry:
  assumes "i < length entries" and "i < 20" and "description (entries ! i) = None"
  shows "r_description (generateRSSFeed entries ! i) =
           strip_tags (take 200 (content (entries ! i))) @ ''...''"
  using assms by (simp add: generateRSSFeed_def rssItem_def truthy_def Let_def)

theorem feed_description_of_undescribed_entry_witness:
  "(0::nat) < length [parseEntry (''long.md'', long_post)] \<and> (0::nat) < 20 \<and>
   description ([parseEntry (''long.md'', long_post)] ! 0) = None \<and>
   r_description (generateRSSFeed [parseEntry (''long.md'', long_post)] ! 0) =
     replicate 198 CHR ''a'' @ ''<b...''"
  using feed_description_of_undescribed_entry [of 0 "[parseEntry (''long.md'', long_post)]"]
  by (simp add: long_entry(2) long_entry_slice_then_strip)

text \<open>
  C6. For every set of source files whose output directory can be made and whose dates
  parse (the runs that write a manifest), the manifest written to \<open>posts.json\<close>, which
  is the first file of the run, holds exactly one record per markdown source post: as
  many records as there are \<open>.md\<close> files, and the slugs of the records are exactly the
  stems of these file names (the name without its \<open>.md\<close> extension), each as often as it
  occurs. This holds whatever happens to the run afterwards, and the manifest of a
  completed run is that one.
\<close>

theorem manifest_one_record_per_markdown_post:
  assumes dir: "mkdir_ok h w OUTPUT_DIR"
    and valid: "\<forall>fp\<in>set (markdown_files files). a_date (snd fp) \<noteq> InvalidDate"
  shows "\<exists>res w' m rest. generateSite h files w = (res, w') \<and>
           disk w' = disk w @ (path_join h OUTPUT_DIR ''posts.json'', ManifestFile m) # rest \<and>
           (\<forall>out. res = Inr out \<longrightarrow> posts_json out = m) \<and>
           length m = length (markdown_files files) \<and>
           mset (map (\<lambda>r. map_of r ''slug'') m) =
             mset (map (\<lambda>fp. Some (JsonString (basename (fst fp) ''.md''))) (markdown_files files)) \<and>
           (\<forall>fp\<in>set (markdown_files files). basename (fst fp) ''.md'' @ ''.md'' = fst fp)"
proof -
  from generateSite_manifest [OF dir valid] obtain gs metas res w' rest where
    len: "length gs = length (markdown_files files)" and
    metas: "map_throw metadata_of (sorted_entries files gs) = Inr metas" and
    run: "generateSite h files w = (res, w')" and
    dk: "disk w' = disk w @ (path_join h OUTPUT_DIR ''posts.json'',
                         ManifestFile (map stringify_record metas)) # rest" and
    out: "\<forall>out. res = Inr out \<longrightarrow> posts_json out = map stringify_record metas"
    by blast
  define m where "m = map stringify_record metas"
  have slugs: "map m_slug metas = map slug (sorted_entries files gs)"
    using slugs_of_metas [OF metas] .
  then have lenm: "length metas = length (sorted_entries files gs)"
    by (metis length_map)
  have l: "length m = length (markdown_files files)"
    using lenm len by (simp add: m_def sorted_entries_def length_js_sort processed_entries_def)
  have s: "mset (map (\<lambda>r. map_of r ''slug'') m) =
             mset (map (\<lambda>fp. Some (JsonString (basename (fst fp) ''.md''))) (markdown_files files))"
  proof -
    have "map (\<lambda>r. map_of r ''slug'') m =
          map (\<lambda>s. Some (JsonString s)) (map m_slug metas)"
      by (simp add: m_def slug_of_record comp_def)
    also have "\<dots> = map (\<lambda>e. Some (JsonString (slug e))) (sorted_entries files gs)"
      by (simp add: slugs comp_def)
    finally have "mset (map (\<lambda>r. map_of r ''slug'') m) =
        image_mset (\<lambda>e. Some (JsonString (slug e))) (mset (sorted_entries files gs))"
      by simp
    also have "\<dots> = image_mset (\<lambda>e. Some (JsonString (slug e))) (mset (processed_entries files gs))"
      by (simp add: sorted_entries_def mset_js_sort)
    also have "\<dots> = mset (map (\<lambda>s. Some (JsonString s)) (map slug (processed_entries files gs)))"
      by (simp add: comp_def)
    also have "map slug (processed_entries files gs) =
        map (\<lambda>fp. slug (parseEntry fp)) (markdown_files files)"
      using map_processed_entries [OF len, of slug] by (simp add: with_media_fields)
    also have "\<dots> = map (\<lambda>fp. basename (fst fp) ''.md'') (markdown_files files)"
      by (simp add: parseEntry_fields)
    finally show ?thesis by (simp add: comp_def)
  qed
  have b: "\<forall>fp\<in>set (markdown_files files). basename (fst fp) ''.md'' @ ''.md'' = fst fp"
    by (simp add: markdown_files_def basename_md)
  from run dk out l s b show ?thesis
    unfolding m_def [symmetric] by blast
qed

theorem manifest_one_record_per_markdown_post_witness:
  "mkdir_ok host_ok fresh_world OUTPUT_DIR \<and>
   markdown_files example_files =
     [(''song.md'', song_post), (''diary.md'', diary_post), (''talk.md'', talk_post)] \<and>
   a_date song_post \<noteq> InvalidDate \<and> a_date diary_post \<noteq> InvalidDate \<and>
   a_date talk_post \<noteq> InvalidDate \<and>
   (\<exists>res w' m rest. generateSite host_ok example_files fresh_world = (res, w') \<and>
      disk w' = (''docs/posts.json'', ManifestFile m) # rest \<and>
      length m = 3 \<and>
      mset (map (\<lambda>r. map_of r ''slug'') m) =
        {# Some (JsonString ''song''), Some (JsonString ''diary''), Some (JsonString ''talk'') #})"
proof -
  have md: "markdown_files example_files =
      [(''song.md'', song_post), (''diary.md'', diary_post), (''talk.md'', talk_post)]"
    by (simp add: markdown_files_def example_files_def endsWith_def)
  have dir: "mkdir_ok host_ok fresh_world OUTPUT_DIR"
    by (simp add: host_ok_def)
  have valid: "\<forall>fp\<in>set (markdown_files example_files). a_date (snd fp) \<noteq> InvalidDate"
    by (simp add: md song_post_def diary_post_def talk_post_def)
  have p: "path_join host_ok OUTPUT_DIR ''posts.json'' = ''docs/posts.json''"
    by (simp add: host_ok_def example_join_def OUTPUT_DIR_def)
  have k: "disk fresh_world = []" by (simp add: fresh_world_def)
  from manifest_one_record_per_markdown_post [OF dir valid]
  obtain res w' m rest where
    "generateSite host_ok example_files fresh_world = (res, w')"
    "disk w' = (''docs/posts.json'', ManifestFile m) # rest"
    "length m = 3"
    "mset (map (\<lambda>r. map_of r ''slug'') m) =
        {# Some (JsonString ''song''), Some (JsonString ''diary''), Some (JsonString ''talk'') #}"
    by (auto simp: md p k basename_def endsWith_def numeral_3_eq_3)
  then have "\<exists>res w' m rest. generateSite host_ok example_files fresh_world = (res, w') \<and>
      disk w' = (''docs/posts.json'', ManifestFile m) # rest \<and>
      length m = 3 \<and>
      mset (map (\<lambda>r. map_of r ''slug'') m) =
        {# Some (JsonString ''song''), Some (JsonString ''diary''), Some (JsonString ''talk'') #}"
    by (intro exI conjI)
  with dir md show ?thesis
    by (simp add: song_post_def diary_post_def talk_post_def)
qed




text \<open>
  C8. Waveform-image generation never throws: it returns the output image path when the
  directory of the image can be made and the probe, the audio extraction, the waveform
  render and the composite each succeed in the world the preceding steps leave (and the
  two temporary files can be removed, which they can when the output path ends in \<open>.jpg\<close>
  or \<open>.png\<close>); it returns the failure sentinel (\<open>None\<close>, the source's \<open>false\<close>) in every
  other case, so whenever one of the four commands fails. On success the four commands
  have been run in this order and the image exists. The caller takes the sentinel as
  "no waveform available": the entry's \<open>waveformImage\<close> is \<open>null\<close> and the video is made
  from the cover image instead; with a waveform, \<open>waveformImage\<close> is its path and the
  video is made from it. The media loop returns an entry for every entry whatever the
  media tool does, and so does the build: when the output directory can be made and the
  dates parse it writes the manifest, and when the \<open>posts\<close> directory exists it runs to
  its end.
\<close>

theorem waveform_failure_is_a_sentinel:
  "(let w0 = w\<lparr>dirs := insert (path_dirname h out) (dirs w)\<rparr>;
        tempAudio = replace_image_ext out ''-temp.mp3'';
        tempWaveform = replace_image_ext out ''-waveform-temp.png'';
        probe = Probe c;
        extract = ExtractAudio a tempAudio;
        render = RenderWaveform tempAudio
                   (or_default (nth_dim (probe_dims h w0 c) 0) 1200)
                   (or_default (nth_dim (probe_dims h w0 c) 1) 630) tempWaveform;
        composite = Composite c tempWaveform out;
        result = generateWaveformImage h a out c w
    in fst result =
         Inr (if waveform_steps_ok h a out c w \<and>
                 (endsWith out ''.jpg'' \<or> endsWith out ''.png'')
              then Some out else None) \<and>
       (\<not> exec_ok h w0 probe \<longrightarrow> fst result = Inr None) \<and>
       (\<not> exec_ok h (ran probe w0) extract \<longrightarrow> fst result = Inr None) \<and>
       (\<not> exec_ok h (ran extract (ran probe w0)) render \<longrightarrow> fst result = Inr None) \<and>
       (\<not> exec_ok h (ran render (ran extract (ran probe w0))) composite \<longrightarrow>
          fst result = Inr None) \<and>
       (waveform_steps_ok h a out c w \<and> (endsWith out ''.jpg'' \<or> endsWith out ''.png'') \<longrightarrow>
          cmds (snd result) = cmds w @ [probe, extract, render, composite] \<and>
          mtime (snd result) out \<noteq> None)) \<and>
   (eligible e \<and> musicSource e = Some ms \<longrightarrow>
      (let audioPath = path_join h OUTPUT_DIR ms;
           waveformImagePath = replace_audio_ext audioPath ''-waveform.jpg'';
           generated = (waveform_steps_ok h audioPath waveformImagePath (cover_of h e) w \<and>
                        (endsWith waveformImagePath ''.jpg'' \<or>
                         endsWith waveformImagePath ''.png''))
       in \<exists>w1 w'.
            generateWaveformImage h audioPath waveformImagePath (cover_of h e) w =
              (Inr (if generated then Some waveformImagePath else None), w1) \<and>
            generateVideoFromAudio h audioPath (replace_audio_ext audioPath ''.mp4'')
              (if generated then waveformImagePath else cover_of h e) w1 = (Inr (), w') \<and>
            mediaStep h e w =
              (Inr (e\<lparr> videoSource := JStr (replace_audio_ext ms ''.mp4''),
                       waveformImage :=
                         (if generated then JStr (replace_audio_ext ms ''-waveform.jpg'')
                          else JNull) \<rparr>), w'))) \<and>
   (\<exists>es' w'. processMedia h es w = (Inr es', w') \<and> length es' = length es) \<and>
   (mkdir_ok h w OUTPUT_DIR \<and>
    (\<forall>fp\<in>set (markdown_files files). a_date (snd fp) \<noteq> InvalidDate) \<longrightarrow>
      (\<exists>res w' m rest. generateSite h files w = (res, w') \<and>
         disk w' = disk w @ (path_join h OUTPUT_DIR ''posts.json'', ManifestFile m) # rest) \<and>
      (OUTPUT_POSTS_DIR h \<in> dirs w \<longrightarrow>
         (\<exists>site w'. generateSite h files w = (Inr site, w'))))"
proof (intro conjI)
  show "let w0 = w\<lparr>dirs := insert (path_dirname h out) (dirs w)\<rparr>;
        tempAudio = replace_image_ext out ''-temp.mp3'';
        tempWaveform = replace_image_ext out ''-waveform-temp.png'';
        probe = Probe c;
        extract = ExtractAudio a tempAudio;
        render = RenderWaveform tempAudio
                   (or_default (nth_dim (probe_dims h w0 c) 0) 1200)
                   (or_default (nth_dim (probe_dims h w0 c) 1) 630) tempWaveform;
        composite = Composite c tempWaveform out;
        result = generateWaveformImage h a out c w
    in fst result =
         Inr (if waveform_steps_ok h a out c w \<and>
                 (endsWith out ''.jpg'' \<or> endsWith out ''.png'')
              then Some out else None) \<and>
       (\<not> exec_ok h w0 probe \<longrightarrow> fst result = Inr None) \<and>
       (\<not> exec_ok h (ran probe w0) extract \<longrightarrow> fst result = Inr None) \<and>
       (\<not> exec_ok h (ran extract (ran probe w0)) render \<longrightarrow> fst result = Inr None) \<and>
       (\<not> exec_ok h (ran render (ran extract (ran probe w0))) composite \<longrightarrow>
          fst result = Inr None) \<and>
       (waveform_steps_ok h a out c w \<and> (endsWith out ''.jpg'' \<or> endsWith out ''.png'') \<longrightarrow>
          cmds (snd result) = cmds w @ [probe, extract, render, composite] \<and>
          mtime (snd result) out \<noteq> None)"
    unfolding Let_def
  proof (intro conjI impI)
    show "fst (generateWaveformImage h a out c w) =
         Inr (if waveform_steps_ok h a out c w \<and>
                 (endsWith out ''.jpg'' \<or> endsWith out ''.png'')
              then Some out else None)"
      by (rule generateWaveformImage_exact)
  qed (simp_all add: generateWaveformImage_step_fails generateWaveformImage_success)
next
  show "eligible e \<and> musicSource e = Some ms \<longrightarrow>
      (let audioPath = path_join h OUTPUT_DIR ms;
           waveformImagePath = replace_audio_ext audioPath ''-waveform.jpg'';
           generated = (waveform_steps_ok h audioPath waveformImagePath (cover_of h e) w \<and>
                        (endsWith waveformImagePath ''.jpg'' \<or>
                         endsWith waveformImagePath ''.png''))
       in \<exists>w1 w'.
            generateWaveformImage h audioPath waveformImagePath (cover_of h e) w =
              (Inr (if generated then Some waveformImagePath else None), w1) \<and>
            generateVideoFromAudio h audioPath (replace_audio_ext audioPath ''.mp4'')
              (if generated then waveformImagePath else cover_of h e) w1 = (Inr (), w') \<and>
            mediaStep h e w =
              (Inr (e\<lparr> videoSource := JStr (replace_audio_ext ms ''.mp4''),
                       waveformImage :=
                         (if generated then JStr (replace_audio_ext ms ''-waveform.jpg'')
                          else JNull) \<rparr>), w'))"
    unfolding Let_def using mediaStep_exact [of e ms h w] by blast
next
  show "\<exists>es' w'. processMedia h es w = (Inr es', w') \<and> length es' = length es"
    by (rule processMedia_total)
next
  show "mkdir_ok h w OUTPUT_DIR \<and>
    (\<forall>fp\<in>set (markdown_files files). a_date (snd fp) \<noteq> InvalidDate) \<longrightarrow>
      (\<exists>res w' m rest. generateSite h files w = (res, w') \<and>
         disk w' = disk w @ (path_join h OUTPUT_DIR ''posts.json'', ManifestFile m) # rest) \<and>
      (OUTPUT_POSTS_DIR h \<in> dirs w \<longrightarrow>
         (\<exists>site w'. generateSite h files w = (Inr site, w')))"
  proof (intro impI conjI)
    assume a: "mkdir_ok h w OUTPUT_DIR \<and>
      (\<forall>fp\<in>set (markdown_files files). a_date (snd fp) \<noteq> InvalidDate)"
    then have dir: "mkdir_ok h w OUTPUT_DIR"
      and valid: "\<forall>fp\<in>set (markdown_files files). a_date (snd fp) \<noteq> InvalidDate"
      by simp_all
    from generateSite_manifest [OF dir valid]
    show "\<exists>res w' m rest. generateSite h files w = (res, w') \<and>
         disk w' = disk w @ (path_join h OUTPUT_DIR ''posts.json'', ManifestFile m) # rest"
      by blast
    assume "OUTPUT_POSTS_DIR h \<in> dirs w"
    from generateSite_succeeds [OF dir valid this]
    show "\<exists>site w'. generateSite h files w = (Inr site, w')" .
  qed
qed

theorem waveform_failure_is_a_sentinel_witness:
  "eligible (parseEntry (''song.md'', song_post)) \<and>
   musicSource (parseEntry (''song.md'', song_post)) = Some ''/music/a.mp3'' \<and>
   \<not> exec_ok host_no_extract
       (ran (Probe ''./audio-cover.jpg'')
          (world0\<lparr>dirs := insert ''docs/music'' (dirs world0)\<rparr>))
       (ExtractAudio ''docs/music/a.mp3'' ''docs/music/a-waveform-temp.mp3'') \<and>
   fst (generateWaveformImage host_no_extract ''docs/music/a.mp3''
          ''docs/music/a-waveform.jpg'' ''./audio-cover.jpg'' world0) = Inr None \<and>
   (\<exists>w'. mediaStep host_no_extract (parseEntry (''song.md'', song_post)) world0 =
      (Inr ((parseEntry (''song.md'', song_post))
             \<lparr> videoSource := JStr ''/music/a.mp4'', waveformImage := JNull \<rparr>), w')) \<and>
   waveform_steps_ok host_ok ''docs/music/a.mp3'' ''docs/music/a-waveform.jpg''
     ''./audio-cover.jpg'' world0 \<and>
   fst (generateWaveformImage host_ok ''docs/music/a.mp3''
          ''docs/music/a-waveform.jpg'' ''./audio-cover.jpg'' world0) =
     Inr (Some ''docs/music/a-waveform.jpg'') \<and>
   cmds (snd (generateWaveformImage host_ok ''docs/music/a.mp3''
          ''docs/music/a-waveform.jpg'' ''./audio-cover.jpg'' world0)) =
     [Probe ''./audio-cover.jpg'',
      ExtractAudio ''docs/music/a.mp3'' ''docs/music/a-waveform-temp.mp3'',
      RenderWaveform ''docs/music/a-waveform-temp.mp3'' 1200 630 ''docs/music/a-waveform-waveform-temp.png'',
      Composite ''./audio-cover.jpg'' ''docs/music/a-waveform-waveform-temp.png''
        ''docs/music/a-waveform.jpg''] \<and>
   (\<exists>w'. mediaStep host_ok (parseEntry (''song.md'', song_post)) world0 =
      (Inr ((parseEntry (''song.md'', song_post))
             \<lparr> videoSource := JStr ''/music/a.mp4'',
               waveformImage := JStr ''/music/a-waveform.jpg'' \<rparr>), w')) \<and>
   mkdir_ok host_no_extract world0 OUTPUT_DIR \<and>
   markdown_files example_files =
     [(''song.md'', song_post), (''diary.md'', diary_post), (''talk.md'', talk_post)] \<and>
   a_date song_post \<noteq> InvalidDate \<and> a_date diary_post \<noteq> InvalidDate \<and>
   a_date talk_post \<noteq> InvalidDate \<and>
   OUTPUT_POSTS_DIR host_no_extract \<in> dirs world0 \<and>
   (\<exists>site w'. generateSite host_no_extract example_files world0 = (Inr site, w'))"
proof -
  let ?song = "parseEntry (''song.md'', song_post)"
  have el: "eligible ?song" and ms: "musicSource ?song = Some ''/music/a.mp3''"
    by (simp_all add: song_entry eligible_def truthy_def)
  have j: "path_join host_no_extract OUTPUT_DIR ''/music/a.mp3'' = ''docs/music/a.mp3''"
    "path_join host_ok OUTPUT_DIR ''/music/a.mp3'' = ''docs/music/a.mp3''"
    by (simp_all add: host_no_extract_def host_ok_def example_join_def OUTPUT_DIR_def)
  have d: "path_dirname host_no_extract ''docs/music/a-waveform.jpg'' = ''docs/music''"
    "path_dirname host_ok ''docs/music/a-waveform.jpg'' = ''docs/music''"
    by (simp_all add: host_no_extract_def host_ok_def example_dirname_def)
  have t: "replace_image_ext ''docs/music/a-waveform.jpg'' r = ''docs/music/a-waveform'' @ r" for r
    using replace_image_ext_match [of "''.jpg''" "''docs/music/a-waveform''" r] by simp
  have c: "cover_of host_no_extract ?song = ''./audio-cover.jpg''"
    "cover_of host_ok ?song = ''./audio-cover.jpg''"
    by (simp_all add: cover_of_def song_entry AUDIO_COVER_IMAGE_def)
  have img: "endsWith ''docs/music/a-waveform.jpg'' ''.jpg''"
    by (simp add: endsWith_def)
  have x: "\<And>w k. exec_ok host_ok w k" "\<And>w d. mkdir_ok host_ok w d"
    "\<And>w p. probe_dims host_ok w p = [Some 1200, Some 630]"
    "\<And>w d. mkdir_ok host_no_extract w d"
    "\<And>w a b. \<not> exec_ok host_no_extract w (ExtractAudio a b)"
    by (simp_all add: host_ok_def host_no_extract_def)
  have bad: "\<not> waveform_steps_ok host_no_extract ''docs/music/a.mp3''
      ''docs/music/a-waveform.jpg'' ''./audio-cover.jpg'' world0"
    by (simp add: waveform_steps_ok_def Let_def x)
  have good: "waveform_steps_ok host_ok ''docs/music/a.mp3''
      ''docs/music/a-waveform.jpg'' ''./audio-cover.jpg'' world0"
    by (simp add: waveform_steps_ok_def Let_def x)
  have md: "markdown_files example_files =
      [(''song.md'', song_post), (''diary.md'', diary_post), (''talk.md'', talk_post)]"
    by (simp add: markdown_files_def example_files_def endsWith_def)
  have dates: "a_date song_post \<noteq> InvalidDate" "a_date diary_post \<noteq> InvalidDate"
    "a_date talk_post \<noteq> InvalidDate"
    by (simp_all add: song_post_def diary_post_def talk_post_def)
  have pd: "OUTPUT_POSTS_DIR host_no_extract \<in> dirs world0"
    by (simp add: example_posts_dir world0_def)
  have w0: "cmds world0 = []" by (simp add: world0_def)
  note bad1 = waveform_failure_is_a_sentinel
      [where h = host_no_extract and a = "''docs/music/a.mp3''"
         and out = "''docs/music/a-waveform.jpg''" and c = "''./audio-cover.jpg''"
         and w = world0 and e = ?song and ms = "''/music/a.mp3''" and es = "[]"
         and files = example_files]
  note good1 = waveform_failure_is_a_sentinel
      [where h = host_ok and a = "''docs/music/a.mp3''"
         and out = "''docs/music/a-waveform.jpg''" and c = "''./audio-cover.jpg''"
         and w = world0 and e = ?song and ms = "''/music/a.mp3''" and es = "[]"
         and files = example_files]
  have A: "fst (generateWaveformImage host_no_extract ''docs/music/a.mp3''
          ''docs/music/a-waveform.jpg'' ''./audio-cover.jpg'' world0) = Inr None"
    using bad1 by (simp add: Let_def bad)
  have B: "\<exists>w'. mediaStep host_no_extract ?song world0 =
      (Inr (?song \<lparr> videoSource := JStr ''/music/a.mp4'', waveformImage := JNull \<rparr>), w')"
    using bad1 el ms
    by (simp add: Let_def j c bad replace_audio_ext_example) blast
  have C: "fst (generateWaveformImage host_ok ''docs/music/a.mp3''
          ''docs/music/a-waveform.jpg'' ''./audio-cover.jpg'' world0) =
     Inr (Some ''docs/music/a-waveform.jpg'')"
    using good1 by (simp add: Let_def good img)
  have D: "cmds (snd (generateWaveformImage host_ok ''docs/music/a.mp3''
          ''docs/music/a-waveform.jpg'' ''./audio-cover.jpg'' world0)) =
     [Probe ''./audio-cover.jpg'',
      ExtractAudio ''docs/music/a.mp3'' ''docs/music/a-waveform-temp.mp3'',
      RenderWaveform ''docs/music/a-waveform-temp.mp3'' 1200 630 ''docs/music/a-waveform-waveform-temp.png'',
      Composite ''./audio-cover.jpg'' ''docs/music/a-waveform-waveform-temp.png''
        ''docs/music/a-waveform.jpg'']"
    using good1 by (simp add: Let_def good img t x or_default_def nth_dim_def w0)
  have E: "\<exists>w'. mediaStep host_ok ?song world0 =
      (Inr (?song \<lparr> videoSource := JStr ''/music/a.mp4'',
               waveformImage := JStr ''/music/a-waveform.jpg'' \<rparr>), w')"
    using good1 el ms
    by (simp add: Let_def j c good img replace_audio_ext_example) blast
  have F: "\<exists>site w'. generateSite host_no_extract example_files world0 = (Inr site, w')"
    using bad1 by (simp add: md dates pd x)
  from el ms x(5) A B good C D E x(4) md dates pd F show ?thesis
    by (simp add: d)
qed

end
